theory Spec2Isabelle
  imports Main "HOL-Library.Word" "HOL-Library.AList" "HOL-Library.Code_Target_Numeral"
begin

unbundle bit_operations_syntax

section \<open>Python strings\<close>

text \<open>
  Strings are byte strings: a \<^typ>\<open>char\<close> is one byte of the UTF-8 encoding that
  \<^verbatim>\<open>str.encode()\<close> produces, so \<^verbatim>\<open>f"{a}{b}"\<close> is \<open>a @ b\<close>.
\<close>

text \<open>\<^verbatim>\<open>str(n)\<close> for a non-negative integer: its decimal digits.\<close>

fun str_nat :: "nat \<Rightarrow> string" where
  "str_nat n = (if n < 10 then [''0123456789'' ! n] else str_nat (n div 10) @ [''0123456789'' ! (n mod 10)])"

declare str_nat.simps [simp del]

definition str_int :: "int \<Rightarrow> string" where
  "str_int i = (if i < 0 then ''-'' @ str_nat (nat (- i)) else str_nat (nat i))"

text \<open>\<^verbatim>\<open>s.split(sep)\<close> with a one-character separator; the result is never empty.\<close>

fun split :: "char \<Rightarrow> string \<Rightarrow> string list" where
  "split sep [] = [[]]"
| "split sep (c # cs) =
     (if c = sep then [] # split sep cs
      else (case split sep cs of [] \<Rightarrow> [[c]] | w # ws \<Rightarrow> (c # w) # ws))"

text \<open>\<^verbatim>\<open>s.isascii() and s.isdigit()\<close>: non-empty, ASCII digits only.\<close>

definition isdigit :: "string \<Rightarrow> bool" where
  "isdigit s = (s \<noteq> [] \<and> list_all (\<lambda>c. 48 \<le> (of_char c :: nat) \<and> (of_char c :: nat) \<le> 57) s)"

text \<open>\<^verbatim>\<open>int(s, 10)\<close> on a string of ASCII digits.\<close>

definition int_of_digits :: "string \<Rightarrow> nat" where
  "int_of_digits s = foldl (\<lambda>n c. 10 * n + (of_char c - 48)) 0 s"

text \<open>
  \<^verbatim>\<open>s.upper()\<close> on the ASCII letters; no other character is mapped to one of the letters
  of \<^verbatim>\<open>"ALLOW"\<close>, the only string the result is compared with.
\<close>

definition upper :: "string \<Rightarrow> string" where
  "upper s = map (\<lambda>c. case map_of (zip ''abcdefghijklmnopqrstuvwxyz'' ''ABCDEFGHIJKLMNOPQRSTUVWXYZ'') c of
                          None \<Rightarrow> c | Some u \<Rightarrow> u) s"

section \<open>hashlib.md5\<close>

text \<open>
  \<^verbatim>\<open>hashlib.md5(data).hexdigest()\<close> is the MD5 message digest of RFC 1321, written as 32
  lower-case hexadecimal digits. The words are 32-bit and all additions wrap.
\<close>

type_synonym u32 = "32 word"
type_synonym byte = "8 word"

definition md5_K :: "u32 list" where
  "md5_K = [
    0xd76aa478, 0xe8c7b756, 0x242070db, 0xc1bdceee, 0xf57c0faf, 0x4787c62a, 0xa8304613, 0xfd469501,
    0x698098d8, 0x8b44f7af, 0xffff5bb1, 0x895cd7be, 0x6b901122, 0xfd987193, 0xa679438e, 0x49b40821,
    0xf61e2562, 0xc040b340, 0x265e5a51, 0xe9b6c7aa, 0xd62f105d, 0x02441453, 0xd8a1e681, 0xe7d3fbc8,
    0x21e1cde6, 0xc33707d6, 0xf4d50d87, 0x455a14ed, 0xa9e3e905, 0xfcefa3f8, 0x676f02d9, 0x8d2a4c8a,
    0xfffa3942, 0x8771f681, 0x6d9d6122, 0xfde5380c, 0xa4beea44, 0x4bdecfa9, 0xf6bb4b60, 0xbebfbc70,
    0x289b7ec6, 0xeaa127fa, 0xd4ef3085, 0x04881d05, 0xd9d4d039, 0xe6db99e5, 0x1fa27cf8, 0xc4ac5665,
    0xf4292244, 0x432aff97, 0xab9423a7, 0xfc93a039, 0x655b59c3, 0x8f0ccc92, 0xffeff47d, 0x85845dd1,
    0x6fa87e4f, 0xfe2ce6e0, 0xa3014314, 0x4e0811a1, 0xf7537e82, 0xbd3af235, 0x2ad7d2bb, 0xeb86d391]"

definition md5_s :: "nat list" where
  "md5_s = [7, 12, 17, 22, 7, 12, 17, 22, 7, 12, 17, 22, 7, 12, 17, 22,
            5, 9, 14, 20, 5, 9, 14, 20, 5, 9, 14, 20, 5, 9, 14, 20,
            4, 11, 16, 23, 4, 11, 16, 23, 4, 11, 16, 23, 4, 11, 16, 23,
            6, 10, 15, 21, 6, 10, 15, 21, 6, 10, 15, 21, 6, 10, 15, 21]"

text \<open>Operation \<open>i\<close> of the 64 operations on a block with message words \<open>M\<close>.\<close>

definition md5_step :: "u32 list \<Rightarrow> nat \<Rightarrow> u32 \<times> u32 \<times> u32 \<times> u32 \<Rightarrow> u32 \<times> u32 \<times> u32 \<times> u32" where
  "md5_step M i st = (case st of (A, B, C, D) \<Rightarrow>
     let (F, g) =
           (if i < 16 then ((B AND C) OR (NOT B AND D), i)
            else if i < 32 then ((D AND B) OR (NOT D AND C), (5 * i + 1) mod 16)
            else if i < 48 then (B XOR C XOR D, (3 * i + 5) mod 16)
            else (C XOR (B OR NOT D), (7 * i) mod 16));
         F' = F + A + md5_K ! i + M ! g
     in (D, B + (push_bit (md5_s ! i) F' OR drop_bit (32 - md5_s ! i) F'), B, C))"

text \<open>Little-endian: bytes to a word, and the low \<open>n\<close> bytes of a number.\<close>

definition le_word :: "byte list \<Rightarrow> u32" where
  "le_word bs = foldr (\<lambda>b w. ucast b OR push_bit 8 w) bs 0"

definition le_bytes :: "nat \<Rightarrow> nat \<Rightarrow> byte list" where
  "le_bytes n v = map (\<lambda>k. of_nat (v div 256 ^ k)) [0..<n]"

fun chunks :: "nat \<Rightarrow> 'a list \<Rightarrow> 'a list list" where
  "chunks n [] = []"
| "chunks n (x # xs) = (if n = 0 then [x # xs] else take n (x # xs) # chunks n (drop n (x # xs)))"

definition md5_block :: "u32 \<times> u32 \<times> u32 \<times> u32 \<Rightarrow> byte list \<Rightarrow> u32 \<times> u32 \<times> u32 \<times> u32" where
  "md5_block h blk = (case h of (a0, b0, c0, d0) \<Rightarrow>
     case fold (md5_step (map le_word (chunks 4 blk))) [0..<64] h of
       (A, B, C, D) \<Rightarrow> (a0 + A, b0 + B, c0 + C, d0 + D))"

text \<open>Padding: a one bit, zeros up to 56 modulo 64 bytes, the bit length in 8 bytes.\<close>

definition md5_pad :: "byte list \<Rightarrow> byte list" where
  "md5_pad msg = msg @ [0x80] @ replicate ((119 - length msg mod 64) mod 64) 0
                   @ le_bytes 8 (8 * length msg)"

definition md5_init :: "u32 \<times> u32 \<times> u32 \<times> u32" where
  "md5_init = (0x67452301, 0xefcdab89, 0x98badcfe, 0x10325476)"

definition md5_digest :: "byte list \<Rightarrow> byte list" where
  "md5_digest msg = (case fold (\<lambda>blk h. md5_block h blk) (chunks 64 (md5_pad msg)) md5_init of
     (a, b, c, d) \<Rightarrow> concat (map (\<lambda>w. le_bytes 4 (unat w)) [a, b, c, d]))"

definition hex_digit :: "nat \<Rightarrow> char" where
  "hex_digit n = ''0123456789abcdef'' ! (n mod 16)"

definition hexdigest :: "byte list \<Rightarrow> string" where
  "hexdigest bs = concat (map (\<lambda>b. [hex_digit (unat b div 16), hex_digit (unat b mod 16)]) bs)"

definition encode :: "string \<Rightarrow> byte list" where
  "encode s = map (\<lambda>c. of_nat (of_char c)) s"

definition md5_hexdigest :: "string \<Rightarrow> string" where
  "md5_hexdigest s = hexdigest (md5_digest (encode s))"

section \<open>Derived identifiers\<close>

text \<open>
  \<^verbatim>\<open>add_subnet\<close>: \<^verbatim>\<open>ns_name = f"{vpc_name}-{subnet_name}"\<close>,
  \<^verbatim>\<open>name_hash = hashlib.md5(f"{vpc_name}{subnet_name}".encode()).hexdigest()[:6]\<close>,
  \<^verbatim>\<open>veth_host = f"vh{name_hash}"\<close>, \<^verbatim>\<open>veth_ns = f"vn{name_hash}"\<close>.
\<close>

definition ns_name :: "string \<Rightarrow> string \<Rightarrow> string" where
  "ns_name vpc_name subnet_name = vpc_name @ ''-'' @ subnet_name"

definition name_hash :: "string \<Rightarrow> string \<Rightarrow> string" where
  "name_hash vpc_name subnet_name = take 6 (md5_hexdigest (vpc_name @ subnet_name))"

definition veth_host :: "string \<Rightarrow> string \<Rightarrow> string" where
  "veth_host vpc_name subnet_name = ''vh'' @ name_hash vpc_name subnet_name"

definition veth_ns :: "string \<Rightarrow> string \<Rightarrow> string" where
  "veth_ns vpc_name subnet_name = ''vn'' @ name_hash vpc_name subnet_name"

text \<open>
  \<^verbatim>\<open>peer_vpcs\<close>: \<^verbatim>\<open>peer_hash = hashlib.md5(f"{vpc1_name}{vpc2_name}".encode()).hexdigest()[:6]\<close>,
  \<^verbatim>\<open>peer_veth1 = f"pr1{peer_hash}"\<close>, \<^verbatim>\<open>peer_veth2 = f"pr2{peer_hash}"\<close>.
\<close>

definition peer_hash :: "string \<Rightarrow> string \<Rightarrow> string" where
  "peer_hash vpc1_name vpc2_name = take 6 (md5_hexdigest (vpc1_name @ vpc2_name))"

definition peer_veth1 :: "string \<Rightarrow> string \<Rightarrow> string" where
  "peer_veth1 vpc1_name vpc2_name = ''pr1'' @ peer_hash vpc1_name vpc2_name"

definition peer_veth2 :: "string \<Rightarrow> string \<Rightarrow> string" where
  "peer_veth2 vpc1_name vpc2_name = ''pr2'' @ peer_hash vpc1_name vpc2_name"

section \<open>Exceptions\<close>

text \<open>
  The exceptions the tool can end with; none is caught anywhere in \<^verbatim>\<open>vpcctl.py\<close>.
  \<open>CommandFailed cmd\<close> is \<^verbatim>\<open>Exception(f"Command failed: {cmd}")\<close> of \<^verbatim>\<open>_run_cmd\<close>;
  \<open>OSError\<close> and \<open>JSONDecodeError\<close> come from reading the policy file.
  \<open>AddressValueError\<close> and \<open>NetmaskValueError\<close> are raised and caught inside
  \<^verbatim>\<open>ipaddress\<close>: \<^verbatim>\<open>ip_network\<close> lets only \<open>ValueError\<close> out.
\<close>

datatype exn = CommandFailed string | ValueError | AddressValueError | NetmaskValueError
  | IndexError | KeyError | OSError | JSONDecodeError

section \<open>ipaddress\<close>

text \<open>
  \<^verbatim>\<open>ipaddress.ip_network(s)\<close> (strict) on a string, after CPython 3.11: IPv4 blocks with
  a prefix length, a netmask or a hostmask, and IPv6 blocks with a prefix length, with or
  without a zone. An address is its number; a network carries its version and, for IPv6,
  the zone of the address it was written with (empty when there is none).
\<close>

record network =
  network_address :: nat
  prefixlen :: nat
  version :: nat
  scope_id :: string

definition max_prefixlen :: "network \<Rightarrow> nat" where
  "max_prefixlen net = (if version net = 6 then 128 else 32)"

text \<open>\<^verbatim>\<open>_split_optional_netmask\<close> and \<^verbatim>\<open>_split_addr_prefix\<close>: at most one \<^verbatim>\<open>/\<close>.\<close>

definition split_addr_prefix :: "string \<Rightarrow> exn + string \<times> string option" where
  "split_addr_prefix address =
     (case split CHR ''/'' address of
        [addr] \<Rightarrow> Inr (addr, None)
      | [addr, m] \<Rightarrow> Inr (addr, Some m)
      | _ \<Rightarrow> Inl AddressValueError)"

text \<open>\<^verbatim>\<open>_BaseV4._parse_octet\<close>\<close>

definition parse_octet :: "string \<Rightarrow> exn + nat" where
  "parse_octet octet_str =
     (if octet_str = [] then Inl ValueError
      else if \<not> isdigit octet_str then Inl ValueError
      else if length octet_str > 3 then Inl ValueError
      else if octet_str \<noteq> ''0'' \<and> hd octet_str = CHR ''0'' then Inl ValueError
      else if int_of_digits octet_str > 255 then Inl ValueError
      else Inr (int_of_digits octet_str))"

text \<open>\<^verbatim>\<open>_BaseV4._ip_int_from_string\<close>: four octets, big-endian.\<close>

definition v4_ip_int_from_string :: "string \<Rightarrow> exn + nat" where
  "v4_ip_int_from_string ip_str =
     (if ip_str = [] then Inl AddressValueError
      else case map parse_octet (split CHR ''.'' ip_str) of
        [Inr a, Inr b, Inr c, Inr d] \<Rightarrow> Inr (((a * 256 + b) * 256 + c) * 256 + d)
      | _ \<Rightarrow> Inl AddressValueError)"

text \<open>
  \<^verbatim>\<open>_prefix_from_prefix_string\<close>, for the class with the given \<^verbatim>\<open>_max_prefixlen\<close>.
  \<^verbatim>\<open>int(prefixlen_str)\<close> raises on more than 4300 digits, the default limit of the
  interpreter.
\<close>

definition prefix_from_prefix_string :: "nat \<Rightarrow> string \<Rightarrow> exn + nat" where
  "prefix_from_prefix_string max_len prefixlen_str =
     (if \<not> isdigit prefixlen_str then Inl NetmaskValueError
      else if length prefixlen_str > 4300 then Inl NetmaskValueError
      else if int_of_digits prefixlen_str > max_len then Inl NetmaskValueError
      else Inr (int_of_digits prefixlen_str))"

text \<open>
  \<^verbatim>\<open>_count_righthand_zero_bits\<close>: for a positive number,
  \<^verbatim>\<open>(~number & (number-1)).bit_length()\<close> is the number of its trailing zero bits.
\<close>

fun trailing_zero_bits :: "nat \<Rightarrow> nat" where
  "trailing_zero_bits n = (if n = 0 \<or> odd n then 0 else Suc (trailing_zero_bits (n div 2)))"

declare trailing_zero_bits.simps [simp del]

definition count_righthand_zero_bits :: "nat \<Rightarrow> nat \<Rightarrow> nat" where
  "count_righthand_zero_bits number bits =
     (if number = 0 then bits else min bits (trailing_zero_bits number))"

text \<open>\<^verbatim>\<open>_prefix_from_ip_int\<close>: the mask must be ones followed by zeroes.\<close>

definition prefix_from_ip_int :: "nat \<Rightarrow> nat \<Rightarrow> exn + nat" where
  "prefix_from_ip_int max_len ip_int =
     (let trailing_zeroes = count_righthand_zero_bits ip_int max_len;
          n = max_len - trailing_zeroes;
          leading_ones = ip_int div 2 ^ trailing_zeroes;
          all_ones = 2 ^ n - 1
      in if leading_ones \<noteq> all_ones then Inl ValueError else Inr n)"

text \<open>
  \<^verbatim>\<open>_prefix_from_ip_string\<close> for IPv4: a netmask, or else, with the bits inverted
  (\<^verbatim>\<open>ip_int ^= _ALL_ONES\<close>), a hostmask.
\<close>

definition v4_prefix_from_ip_string :: "string \<Rightarrow> exn + nat" where
  "v4_prefix_from_ip_string ip_str =
     (case v4_ip_int_from_string ip_str of
        Inl e \<Rightarrow> Inl NetmaskValueError
      | Inr ip_int \<Rightarrow>
          (case prefix_from_ip_int 32 ip_int of
             Inr n \<Rightarrow> Inr n
           | Inl e \<Rightarrow>
               (case prefix_from_ip_int 32 (2 ^ 32 - 1 - ip_int) of
                  Inr n \<Rightarrow> Inr n
                | Inl e \<Rightarrow> Inl NetmaskValueError)))"

text \<open>\<^verbatim>\<open>_BaseV4._make_netmask\<close> on a string: prefix length form first.\<close>

definition v4_make_netmask :: "string \<Rightarrow> exn + nat" where
  "v4_make_netmask arg =
     (case prefix_from_prefix_string 32 arg of
        Inr n \<Rightarrow> Inr n
      | Inl e \<Rightarrow> v4_prefix_from_ip_string arg)"

text \<open>
  \<^verbatim>\<open>IPv4Network(address, strict=True)\<close>: without a mask the prefix length is 32; an
  address with host bits set is a plain \<open>ValueError\<close>.
\<close>

definition IPv4Network :: "string \<Rightarrow> exn + network" where
  "IPv4Network address =
     (case split_addr_prefix address of
        Inl e \<Rightarrow> Inl e
      | Inr (addr, netmask) \<Rightarrow>
          (case v4_ip_int_from_string addr of
             Inl e \<Rightarrow> Inl e
           | Inr packed \<Rightarrow>
               (case (case netmask of None \<Rightarrow> Inr 32 | Some m \<Rightarrow> v4_make_netmask m) of
                  Inl e \<Rightarrow> Inl e
                | Inr n \<Rightarrow>
                    if packed mod 2 ^ (32 - n) \<noteq> 0 then Inl ValueError
                    else Inr \<lparr>network_address = packed, prefixlen = n, version = 4, scope_id = []\<rparr>)))"

text \<open>\<^verbatim>\<open>_BaseV6._split_scope_id\<close>: \<^verbatim>\<open>ip_str.partition('%')\<close>; a zone is not empty.\<close>

definition split_scope_id :: "string \<Rightarrow> exn + string \<times> string" where
  "split_scope_id ip_str =
     (let addr = takeWhile (\<lambda>c. c \<noteq> CHR ''%'') ip_str;
          rest = dropWhile (\<lambda>c. c \<noteq> CHR ''%'') ip_str
      in if rest = [] then Inr (addr, [])
         else if tl rest = [] \<or> CHR ''%'' \<in> set (tl rest) then Inl AddressValueError
         else Inr (addr, tl rest))"

text \<open>\<^verbatim>\<open>_BaseV6._parse_hextet\<close>: up to four hexadecimal digits; \<^verbatim>\<open>int('', 16)\<close> raises.\<close>

definition hex_value :: "char \<Rightarrow> nat option" where
  "hex_value c = map_of (zip ''0123456789abcdefABCDEF''
                    [0, 1, 2, 3, 4, 5, 6, 7, 8, 9, 10, 11, 12, 13, 14, 15, 10, 11, 12, 13, 14, 15]) c"

definition parse_hextet :: "string \<Rightarrow> exn + nat" where
  "parse_hextet hextet_str =
     (if \<not> list_all (\<lambda>c. hex_value c \<noteq> None) hextet_str then Inl ValueError
      else if length hextet_str > 4 then Inl ValueError
      else if hextet_str = [] then Inl ValueError
      else Inr (foldl (\<lambda>n c. 16 * n + the (hex_value c)) 0 hextet_str))"

text \<open>\<^verbatim>\<open>'%x' % n\<close>\<close>

fun hex_str :: "nat \<Rightarrow> string" where
  "hex_str n = (if n < 16 then [hex_digit n] else hex_str (n div 16) @ [hex_digit (n mod 16)])"

declare hex_str.simps [simp del]

text \<open>
  The loop \<^verbatim>\<open>ip_int <<= 16; ip_int |= cls._parse_hextet(part)\<close> over some parts; a
  hextet that does not parse makes the address invalid.
\<close>

fun parse_hextets :: "nat \<Rightarrow> string list \<Rightarrow> exn + nat" where
  "parse_hextets ip_int [] = Inr ip_int"
| "parse_hextets ip_int (part # parts) =
     (case parse_hextet part of
        Inl e \<Rightarrow> Inl AddressValueError
      | Inr v \<Rightarrow> parse_hextets (ip_int * 2 ^ 16 + v) parts)"

text \<open>
  \<^verbatim>\<open>_BaseV6._ip_int_from_string\<close>: at least three parts; an IPv4-style last part is
  replaced by its two hextets; at most nine parts; at most one empty part strictly inside
  (the \<^verbatim>\<open>::\<close>), which stands for the hextets that are left out; a leading or trailing
  empty part is allowed only next to it.
\<close>

definition v6_ip_int_from_string :: "string \<Rightarrow> exn + nat" where
  "v6_ip_int_from_string ip_str =
     (if ip_str = [] then Inl AddressValueError
      else if length (split CHR '':'' ip_str) < 3 then Inl AddressValueError
      else
        case (if CHR ''.'' \<in> set (last (split CHR '':'' ip_str))
              then (case v4_ip_int_from_string (last (split CHR '':'' ip_str)) of
                      Inl e \<Rightarrow> Inl AddressValueError
                    | Inr ipv4_int \<Rightarrow>
                        Inr (butlast (split CHR '':'' ip_str)
                             @ [hex_str (ipv4_int div 2 ^ 16 mod 2 ^ 16), hex_str (ipv4_int mod 2 ^ 16)]))
              else Inr (split CHR '':'' ip_str))
        of Inl e \<Rightarrow> Inl e
        | Inr parts \<Rightarrow>
            if length parts > 9 then Inl AddressValueError
            else
              case filter (\<lambda>i. parts ! i = []) [1 ..< length parts - 1] of
                [] \<Rightarrow>
                  if length parts \<noteq> 8 then Inl AddressValueError
                  else if hd parts = [] then Inl AddressValueError
                  else if last parts = [] then Inl AddressValueError
                  else parse_hextets 0 parts
              | [skip_index] \<Rightarrow>
                  let parts_hi = (if hd parts = [] then skip_index - 1 else skip_index);
                      parts_lo = (if last parts = [] then length parts - skip_index - 1 - 1
                                  else length parts - skip_index - 1)
                  in if hd parts = [] \<and> parts_hi \<noteq> 0 then Inl AddressValueError
                     else if last parts = [] \<and> parts_lo \<noteq> 0 then Inl AddressValueError
                     else if 8 - (int parts_hi + int parts_lo) < 1 then Inl AddressValueError
                     else
                       (case parse_hextets 0 (take parts_hi parts) of
                          Inl e \<Rightarrow> Inl e
                        | Inr hi \<Rightarrow>
                            parse_hextets (hi * 2 ^ (16 * (8 - (parts_hi + parts_lo))))
                              (drop (length parts - parts_lo) parts))
              | _ \<Rightarrow> Inl AddressValueError)"

text \<open>
  \<^verbatim>\<open>IPv6Network(address, strict=True)\<close>: the mask can only be a prefix length; without
  one it is 128.
\<close>

definition IPv6Network :: "string \<Rightarrow> exn + network" where
  "IPv6Network address =
     (case split_addr_prefix address of
        Inl e \<Rightarrow> Inl e
      | Inr (addr, netmask) \<Rightarrow>
          (case split_scope_id addr of
             Inl e \<Rightarrow> Inl e
           | Inr (addr_str, scope) \<Rightarrow>
               (case v6_ip_int_from_string addr_str of
                  Inl e \<Rightarrow> Inl e
                | Inr packed \<Rightarrow>
                    (case (case netmask of None \<Rightarrow> Inr 128 | Some m \<Rightarrow> prefix_from_prefix_string 128 m) of
                       Inl e \<Rightarrow> Inl e
                     | Inr n \<Rightarrow>
                         if packed mod 2 ^ (128 - n) \<noteq> 0 then Inl ValueError
                         else Inr \<lparr>network_address = packed, prefixlen = n, version = 6,
                                   scope_id = scope\<rparr>))))"

text \<open>
  \<^verbatim>\<open>ip_network(address)\<close>: IPv4 first; \<^verbatim>\<open>AddressValueError\<close> and
  \<^verbatim>\<open>NetmaskValueError\<close> are caught and IPv6 is tried; when both are refused that way a
  \<open>ValueError\<close> is raised. A \<open>ValueError\<close> for host bits is not caught.
\<close>

definition ip_network :: "string \<Rightarrow> exn + network" where
  "ip_network address =
     (case IPv4Network address of
        Inr net \<Rightarrow> Inr net
      | Inl e \<Rightarrow>
          if e = AddressValueError \<or> e = NetmaskValueError
          then (case IPv6Network address of
                  Inr net \<Rightarrow> Inr net
                | Inl e' \<Rightarrow>
                    if e' = AddressValueError \<or> e' = NetmaskValueError then Inl ValueError
                    else Inl e')
          else Inl e)"

text \<open>
  \<^verbatim>\<open>broadcast_address\<close>: the network address with the host bits set; the host bits of a
  network address are zero.
\<close>

definition broadcast_address :: "network \<Rightarrow> nat" where
  "broadcast_address net = network_address net + 2 ^ (max_prefixlen net - prefixlen net) - 1"

text \<open>
  \<^verbatim>\<open>hosts()\<close>, as the list of the numbers of the addresses: when one bit is left for the
  host both addresses, when none the single address; otherwise for IPv4 the addresses
  strictly between the network and the broadcast address, and for IPv6 those above the
  network address up to the last one. \<^verbatim>\<open>list(net.hosts())\<close> is this list; building it
  takes memory in proportion to its length, which is not modelled.
\<close>

definition hosts :: "network \<Rightarrow> nat list" where
  "hosts net =
     (if prefixlen net = max_prefixlen net - 1 then [network_address net ..< broadcast_address net + 1]
      else if prefixlen net = max_prefixlen net then [network_address net]
      else if version net = 6 then [network_address net + 1 ..< broadcast_address net + 1]
      else [network_address net + 1 ..< broadcast_address net])"

text \<open>\<^verbatim>\<open>xs[i]\<close> for an index \<open>i \<ge> 0\<close>: IndexError out of range.\<close>

definition py_index :: "'a list \<Rightarrow> nat \<Rightarrow> exn + 'a" where
  "py_index xs i = (if i < length xs then Inr (xs ! i) else Inl IndexError)"

text \<open>\<^verbatim>\<open>_BaseV4._string_from_ip_int\<close>: dotted decimal.\<close>

definition v4_string_from_ip_int :: "nat \<Rightarrow> string" where
  "v4_string_from_ip_int a =
     str_nat (a div 2 ^ 24 mod 256) @ ''.'' @ str_nat (a div 2 ^ 16 mod 256) @ ''.''
       @ str_nat (a div 2 ^ 8 mod 256) @ ''.'' @ str_nat (a mod 256)"

text \<open>
  \<^verbatim>\<open>_BaseV6._compress_hextets\<close>: the first longest run of \<^verbatim>\<open>'0'\<close> hextets, when longer
  than one, is replaced by an empty string, with one more empty string at an end of the
  list that the run touches. The scan keeps the best run (start, length) and the current one.
\<close>

fun zero_run_scan ::
    "string list \<Rightarrow> nat \<Rightarrow> nat option \<times> nat \<times> nat option \<times> nat \<Rightarrow> nat option \<times> nat" where
  "zero_run_scan [] index (best_start, best_len, start, len) = (best_start, best_len)"
| "zero_run_scan (hextet # hextets) index (best_start, best_len, start, len) =
     (if hextet = ''0''
      then let start' = (case start of None \<Rightarrow> Some index | Some s \<Rightarrow> Some s)
           in if len + 1 > best_len
              then zero_run_scan hextets (index + 1) (start', len + 1, start', len + 1)
              else zero_run_scan hextets (index + 1) (best_start, best_len, start', len + 1)
      else zero_run_scan hextets (index + 1) (best_start, best_len, None, 0))"

definition compress_hextets :: "string list \<Rightarrow> string list" where
  "compress_hextets hextets =
     (case zero_run_scan hextets 0 (None, 0, None, 0) of
        (Some best_start, best_len) \<Rightarrow>
          if best_len > 1
          then let best_end = best_start + best_len;
                   padded = (if best_end = length hextets then hextets @ [[]] else hextets);
                   cut = take best_start padded @ [[]] @ drop best_end padded
               in if best_start = 0 then [] # cut else cut
          else hextets
      | (None, best_len) \<Rightarrow> hextets)"

text \<open>\<^verbatim>\<open>sep.join(parts)\<close>\<close>

fun join :: "string \<Rightarrow> string list \<Rightarrow> string" where
  "join sep [] = []"
| "join sep [part] = part"
| "join sep (part # parts) = part @ sep @ join sep parts"

text \<open>\<^verbatim>\<open>_BaseV6._string_from_ip_int\<close>: eight hextets, compressed, joined by colons.\<close>

definition v6_string_from_ip_int :: "nat \<Rightarrow> string" where
  "v6_string_from_ip_int ip_int =
     join '':'' (compress_hextets (map (\<lambda>k. hex_str (ip_int div 2 ^ (16 * (7 - k)) mod 2 ^ 16)) [0..<8]))"

text \<open>
  \<^verbatim>\<open>str(h)\<close> for the host \<open>h\<close> of \<^verbatim>\<open>net.hosts()\<close> with number \<open>a\<close>. The hosts are
  made from their numbers and have no zone, except the single host of an IPv6 /128, which
  is made from the address string and keeps its zone.
\<close>

definition str_host :: "network \<Rightarrow> nat \<Rightarrow> string" where
  "str_host net a =
     (if version net = 6
      then v6_string_from_ip_int a
             @ (if prefixlen net = 128 \<and> scope_id net \<noteq> [] then ''%'' @ scope_id net else [])
      else v4_string_from_ip_int a)"

section \<open>The topology store\<close>

text \<open>
  \<^verbatim>\<open>self.state["vpcs"]\<close> and the JSON file \<^verbatim>\<open>~/.vpcctl/vpcs.json\<close>. Python dictionaries
  keep insertion order, and \<^verbatim>\<open>delete_vpc\<close> iterates over the subnets, so a dictionary is an
  association list: \<^const>\<open>map_of\<close> looks a key up, \<^const>\<open>AList.update\<close> assigns (in place
  when the key is there, at the end otherwise), \<^const>\<open>AList.delete\<close> is \<^verbatim>\<open>del\<close>.
\<close>

record subnet =
  sn_cidr :: string
  sn_type :: string
  sn_namespace :: string
  sn_ip :: string
  sn_gateway :: string
  sn_veth_host :: string
  sn_veth_ns :: string

record vpc =
  vpc_cidr :: string
  vpc_bridge :: string
  vpc_bridge_ip :: string
  vpc_internet_interface :: string
  vpc_subnets :: "(string \<times> subnet) list"

type_synonym store = "(string \<times> vpc) list"

section \<open>The manager and the commands it runs\<close>

text \<open>
  What an operation does to the outside is a trace of events, oldest first:
  \<open>Ran cmd check ok\<close> is one call \<^verbatim>\<open>_run_cmd(cmd, check=check)\<close> whose command returned
  exit status 0 exactly when \<open>ok\<close>; \<open>Saved\<close> is one call of \<^verbatim>\<open>_save_state\<close>.
\<close>

datatype event = Ran string bool bool | Saved

record manager =
  state :: store
  disk :: store
  trace :: "event list"

text \<open>
  The shell and the kernel are not modelled: whether a command succeeds is given by an
  arbitrary function of the events so far and the command.
\<close>

type_synonym effector = "event list \<Rightarrow> string \<Rightarrow> bool"

text \<open>\<^verbatim>\<open>VPCManager()\<close>: \<^verbatim>\<open>self.state = self._load_state()\<close>.\<close>

definition VPCManager :: "store \<Rightarrow> manager" where
  "VPCManager d = \<lparr>state = d, disk = d, trace = []\<rparr>"

definition save_state :: "manager \<Rightarrow> manager" where
  "save_state m = m\<lparr>disk := state m, trace := trace m @ [Saved]\<rparr>"

text \<open>
  A statement runs on the manager and either completes or raises. \<^verbatim>\<open>_run_cmd\<close> raises
  when \<^verbatim>\<open>check\<close> is set and the exit status is not 0, in both of its branches; its
  result, the captured output, is used by no caller.
\<close>

type_synonym stmt = "manager \<Rightarrow> exn option \<times> manager"

definition run_cmd :: "effector \<Rightarrow> string \<Rightarrow> bool \<Rightarrow> bool \<Rightarrow> stmt" where
  "run_cmd eff cmd check capture m =
     (let ok = eff (trace m) cmd;
          m' = m\<lparr>trace := trace m @ [Ran cmd check ok]\<rparr>
      in if capture
         then (if check \<and> \<not> ok then (Some (CommandFailed cmd), m') else (None, m'))
         else (if check \<and> \<not> ok then (Some (CommandFailed cmd), m') else (None, m')))"

text \<open>Statements one after the other; the first exception ends the sequence.\<close>

fun block :: "stmt list \<Rightarrow> stmt" where
  "block [] m = (None, m)"
| "block (s # ss) m = (case s m of (Some e, m') \<Rightarrow> (Some e, m') | (None, m') \<Rightarrow> block ss m')"

text \<open>
  How an operation ends: it printed \<^verbatim>\<open>[SUCCESS]\<close>, or it printed \<^verbatim>\<open>[ERROR]\<close> with the given
  message and returned, or an exception left it.
\<close>

datatype outcome = Succeeded | Rejected string | Raised exn

section \<open>The operations\<close>

definition create_vpc :: "effector \<Rightarrow> string \<Rightarrow> string \<Rightarrow> string \<Rightarrow> manager \<Rightarrow> outcome \<times> manager" where
  "create_vpc eff vpc_name cidr_block internet_interface m =
     (if map_of (state m) vpc_name \<noteq> None
      then (Rejected (''VPC '' @ vpc_name @ '' already exists''), m)
      else
        let bridge_name = ''br-'' @ vpc_name in
        case block
          [run_cmd eff (''ip link add '' @ bridge_name @ '' type bridge'') True True,
           run_cmd eff (''ip link set '' @ bridge_name @ '' up'') True True,
           run_cmd eff ''echo 1 > /proc/sys/net/bridge/bridge-nf-call-iptables'' False True,
           run_cmd eff (''iptables -A FORWARD -i '' @ bridge_name @ '' -o '' @ bridge_name @ '' -j ACCEPT'') False True,
           run_cmd eff (''iptables -A FORWARD -i '' @ bridge_name @ '' ! -o '' @ bridge_name @ '' -j DROP'') False True] m
        of (Some e, m1) \<Rightarrow> (Raised e, m1)
        | (None, m1) \<Rightarrow>
           (case ip_network cidr_block of Inl e \<Rightarrow> (Raised e, m1)
            | Inr network \<Rightarrow>
               (case py_index (hosts network) 0 of Inl e \<Rightarrow> (Raised e, m1)
                | Inr first_host \<Rightarrow>
                   let bridge_ip = str_host network first_host in
                   case block
                     [run_cmd eff (''ip addr add '' @ bridge_ip @ ''/'' @ str_nat (prefixlen network)
                                     @ '' dev '' @ bridge_name) True True,
                      run_cmd eff ''sysctl -w net.ipv4.ip_forward=1'' True False] m1
                   of (Some e, m2) \<Rightarrow> (Raised e, m2)
                   | (None, m2) \<Rightarrow>
                      (Succeeded,
                       save_state (m2\<lparr>state := AList.update vpc_name
                         \<lparr>vpc_cidr = cidr_block, vpc_bridge = bridge_name, vpc_bridge_ip = bridge_ip,
                          vpc_internet_interface = internet_interface, vpc_subnets = []\<rparr> (state m2)\<rparr>)))))"

text \<open>\<^verbatim>\<open>_setup_nat\<close> looks the VPC up again and runs three commands.\<close>

definition setup_nat :: "effector \<Rightarrow> string \<Rightarrow> string \<Rightarrow> stmt" where
  "setup_nat eff vpc_name subnet_cidr m =
     (case map_of (state m) vpc_name of None \<Rightarrow> (Some KeyError, m)
      | Some vpc \<Rightarrow>
         let iface = vpc_internet_interface vpc in
         block
           [run_cmd eff (''iptables -t nat -A POSTROUTING -s '' @ subnet_cidr @ '' -o '' @ iface @ '' -j MASQUERADE'') True True,
            run_cmd eff (''iptables -A FORWARD -i '' @ vpc_bridge vpc @ '' -o '' @ iface @ '' -j ACCEPT'') True True,
            run_cmd eff (''iptables -A FORWARD -o '' @ vpc_bridge vpc @ '' -i '' @ iface @ '' -j ACCEPT'') True True] m)"

definition add_subnet :: "effector \<Rightarrow> string \<Rightarrow> string \<Rightarrow> string \<Rightarrow> string \<Rightarrow> manager \<Rightarrow> outcome \<times> manager" where
  "add_subnet eff vpc_name subnet_name subnet_cidr subnet_type m =
     (case map_of (state m) vpc_name of
        None \<Rightarrow> (Rejected (''VPC '' @ vpc_name @ '' not found''), m)
      | Some vpc \<Rightarrow>
         let ns = ns_name vpc_name subnet_name;
             vh = veth_host vpc_name subnet_name;
             vn = veth_ns vpc_name subnet_name in
         case block
           [run_cmd eff (''ip netns add '' @ ns) True True,
            run_cmd eff (''ip link add '' @ vh @ '' type veth peer name '' @ vn) True True,
            run_cmd eff (''ip link set '' @ vn @ '' netns '' @ ns) True True,
            run_cmd eff (''ip link set '' @ vh @ '' master '' @ vpc_bridge vpc) True True,
            run_cmd eff (''ip link set '' @ vh @ '' up'') True True] m
         of (Some e, m1) \<Rightarrow> (Raised e, m1)
         | (None, m1) \<Rightarrow>
            (case ip_network subnet_cidr of Inl e \<Rightarrow> (Raised e, m1)
             | Inr subnet_net \<Rightarrow>
                (case py_index (hosts subnet_net) 0 of Inl e \<Rightarrow> (Raised e, m1)
                 | Inr first_host \<Rightarrow>
                    (case py_index (hosts subnet_net) 1 of Inl e \<Rightarrow> (Raised e, m1)
                     | Inr second_host \<Rightarrow>
                        let subnet_ip = str_host subnet_net first_host;
                            subnet_gateway = str_host subnet_net second_host;
                            plen = str_nat (prefixlen subnet_net) in
                        case block
                          ([run_cmd eff (''ip netns exec '' @ ns @ '' ip link set lo up'') True True,
                            run_cmd eff (''ip netns exec '' @ ns @ '' ip addr add '' @ subnet_ip @ ''/'' @ plen
                                           @ '' dev '' @ vn) True True,
                            run_cmd eff (''ip netns exec '' @ ns @ '' ip link set '' @ vn @ '' up'') True True,
                            run_cmd eff (''ip addr add '' @ subnet_gateway @ ''/'' @ plen @ '' dev ''
                                           @ vpc_bridge vpc) True True,
                            run_cmd eff (''ip netns exec '' @ ns @ '' ip route add default via ''
                                           @ subnet_gateway) True True]
                           @ (if subnet_type = ''public'' then [setup_nat eff vpc_name subnet_cidr] else [])) m1
                        of (Some e, m2) \<Rightarrow> (Raised e, m2)
                        | (None, m2) \<Rightarrow>
                           (Succeeded,
                            save_state (m2\<lparr>state := AList.update vpc_name
                              (vpc\<lparr>vpc_subnets := AList.update subnet_name
                                 \<lparr>sn_cidr = subnet_cidr, sn_type = subnet_type, sn_namespace = ns,
                                  sn_ip = subnet_ip, sn_gateway = subnet_gateway,
                                  sn_veth_host = vh, sn_veth_ns = vn\<rparr> (vpc_subnets vpc)\<rparr>)
                              (state m2)\<rparr>))))))"

definition peer_vpcs :: "effector \<Rightarrow> string \<Rightarrow> string \<Rightarrow> manager \<Rightarrow> outcome \<times> manager" where
  "peer_vpcs eff vpc1_name vpc2_name m =
     (case (map_of (state m) vpc1_name, map_of (state m) vpc2_name) of
        (Some vpc1, Some vpc2) \<Rightarrow>
          let veth1 = peer_veth1 vpc1_name vpc2_name;
              veth2 = peer_veth2 vpc1_name vpc2_name in
          (case block
             [run_cmd eff (''ip link del '' @ veth1) False True,
              run_cmd eff (''ip link del '' @ veth2) False True,
              run_cmd eff (''ip link add '' @ veth1 @ '' type veth peer name '' @ veth2) True True,
              run_cmd eff (''ip link set '' @ veth1 @ '' master '' @ vpc_bridge vpc1) True True,
              run_cmd eff (''ip link set '' @ veth1 @ '' up'') True True,
              run_cmd eff (''ip link set '' @ veth2 @ '' master '' @ vpc_bridge vpc2) True True,
              run_cmd eff (''ip link set '' @ veth2 @ '' up'') True True,
              run_cmd eff (''ip route replace '' @ vpc_cidr vpc2 @ '' dev '' @ vpc_bridge vpc1) True True,
              run_cmd eff (''ip route replace '' @ vpc_cidr vpc1 @ '' dev '' @ vpc_bridge vpc2) True True,
              run_cmd eff (''iptables -I FORWARD -i '' @ vpc_bridge vpc1 @ '' -o '' @ vpc_bridge vpc2 @ '' -j ACCEPT'') False True,
              run_cmd eff (''iptables -I FORWARD -i '' @ vpc_bridge vpc2 @ '' -o '' @ vpc_bridge vpc1 @ '' -j ACCEPT'') False True] m
           of (Some e, m1) \<Rightarrow> (Raised e, m1)
           | (None, m1) \<Rightarrow> (Succeeded, m1))
      | _ \<Rightarrow> (Rejected ''One or both VPCs not found'', m))"

text \<open>
  A policy document: a JSON object whose \<^verbatim>\<open>ingress\<close> member, when present, is a list of
  rules with an integer port and string protocol and action. Reading the file is outside the
  tool: \<open>load_policy\<close> stands for \<^verbatim>\<open>open(policy_file)\<close> followed by \<^verbatim>\<open>json.load\<close>, with
  the exception either may raise.
\<close>

record rule =
  port :: int
  protocol :: string
  action :: string

type_synonym policy = "(string \<times> rule list) list"

text \<open>The body of the loop over the rules: the command built for one rule.\<close>

definition firewall_cmd :: "string \<Rightarrow> rule \<Rightarrow> string" where
  "firewall_cmd ns r =
     (if upper (action r) = ''ALLOW''
      then ''ip netns exec '' @ ns @ '' iptables -A INPUT -p '' @ protocol r @ '' --dport ''
             @ str_int (port r) @ '' -j ACCEPT''
      else ''ip netns exec '' @ ns @ '' iptables -A INPUT -p '' @ protocol r @ '' --dport ''
             @ str_int (port r) @ '' -j DROP'')"

definition apply_firewall ::
    "effector \<Rightarrow> (string \<Rightarrow> exn + policy) \<Rightarrow> string \<Rightarrow> string \<Rightarrow> string \<Rightarrow> manager \<Rightarrow> outcome \<times> manager" where
  "apply_firewall eff load_policy vpc_name subnet_name policy_file m =
     (case map_of (state m) vpc_name of
        None \<Rightarrow> (Rejected (''VPC '' @ vpc_name @ '' not found''), m)
      | Some vpc \<Rightarrow>
         (case map_of (vpc_subnets vpc) subnet_name of
            None \<Rightarrow> (Rejected (''Subnet '' @ subnet_name @ '' not found''), m)
          | Some subnet \<Rightarrow>
             (case load_policy policy_file of Inl e \<Rightarrow> (Raised e, m)
              | Inr policy \<Rightarrow>
                 (case block (map (\<lambda>r. run_cmd eff (firewall_cmd (sn_namespace subnet) r) True True)
                                  (case map_of policy ''ingress'' of None \<Rightarrow> [] | Some rules \<Rightarrow> rules)) m
                  of (Some e, m1) \<Rightarrow> (Raised e, m1)
                  | (None, m1) \<Rightarrow> (Succeeded, m1)))))"

definition delete_vpc :: "effector \<Rightarrow> string \<Rightarrow> manager \<Rightarrow> outcome \<times> manager" where
  "delete_vpc eff vpc_name m =
     (case map_of (state m) vpc_name of
        None \<Rightarrow> (Rejected (''VPC '' @ vpc_name @ '' not found''), m)
      | Some vpc \<Rightarrow>
         (case block
            (concat (map (\<lambda>(subnet_name, subnet).
                       [run_cmd eff (''ip netns del '' @ sn_namespace subnet) False True,
                        run_cmd eff (''ip link del '' @ sn_veth_host subnet) False True])
                     (vpc_subnets vpc))
             @ concat (map (\<lambda>(subnet_name, subnet).
                       if sn_type subnet = ''public''
                       then [run_cmd eff (''iptables -t nat -D POSTROUTING -s '' @ sn_cidr subnet @ '' -o ''
                                           @ vpc_internet_interface vpc @ '' -j MASQUERADE'') False True]
                       else [])
                     (vpc_subnets vpc))
             @ [run_cmd eff (''iptables -D FORWARD -i '' @ vpc_bridge vpc @ '' -o '' @ vpc_bridge vpc @ '' -j ACCEPT'') False True,
                run_cmd eff (''iptables -D FORWARD -i '' @ vpc_bridge vpc @ '' ! -o '' @ vpc_bridge vpc @ '' -j DROP'') False True,
                run_cmd eff (''ip link del '' @ vpc_bridge vpc) False True]) m
          of (Some e, m1) \<Rightarrow> (Raised e, m1)
          | (None, m1) \<Rightarrow>
             (Succeeded, save_state (m1\<lparr>state := AList.delete vpc_name (state m1)\<rparr>))))"

section \<open>Sample inputs\<close>

definition always_ok :: effector where
  "always_ok h cmd = True"

definition always_fail :: effector where
  "always_fail h cmd = False"

definition web_subnet :: subnet where
  "web_subnet = \<lparr>sn_cidr = ''10.0.1.0/24'', sn_type = ''public'', sn_namespace = ''app1-web'',
     sn_ip = ''10.0.1.1'', sn_gateway = ''10.0.1.2'',
     sn_veth_host = veth_host ''app1'' ''web'', sn_veth_ns = veth_ns ''app1'' ''web''\<rparr>"

definition app1_vpc :: vpc where
  "app1_vpc = \<lparr>vpc_cidr = ''10.0.0.0/16'', vpc_bridge = ''br-app1'', vpc_bridge_ip = ''10.0.0.1'',
     vpc_internet_interface = ''eth0'', vpc_subnets = [(''web'', web_subnet)]\<rparr>"

definition app1_store :: store where
  "app1_store = [(''app1'', app1_vpc)]"


definition two_rules :: "rule list" where
  "two_rules = [\<lparr>port = 80, protocol = ''tcp'', action = ''allow''\<rparr>,
                \<lparr>port = 22, protocol = ''tcp'', action = ''deny''\<rparr>]"

definition two_rule_policy :: "string \<Rightarrow> exn + policy" where
  "two_rule_policy policy_file = Inr [(''ingress'', two_rules)]"

definition no_ingress_policy :: "string \<Rightarrow> exn + policy" where
  "no_ingress_policy policy_file = Inr [(''egress'', two_rules)]"

definition fail_on :: "string \<Rightarrow> effector" where
  "fail_on c h cmd = (cmd \<noteq> c)"

section \<open>Reading traces\<close>

fun event_cmd :: "event \<Rightarrow> string" where
  "event_cmd (Ran cmd check ok) = cmd"
| "event_cmd Saved = []"

text \<open>A command run without \<^verbatim>\<open>check=False\<close> that returned a non-zero exit status.\<close>

fun failed_abort :: "event \<Rightarrow> bool" where
  "failed_abort (Ran cmd check ok) = (check \<and> \<not> ok)"
| "failed_abort Saved = False"

fun best_effort :: "event \<Rightarrow> bool" where
  "best_effort (Ran cmd check ok) = (\<not> check)"
| "best_effort Saved = False"

text \<open>Events that are commands, none of them a failed command run with \<^verbatim>\<open>check\<close>.\<close>

definition clean :: "event list \<Rightarrow> bool" where
  "clean evs = list_all (\<lambda>e. e \<noteq> Saved \<and> \<not> failed_abort e) evs"

text \<open>
  What a statement that only runs commands, at most \<open>n\<close> of them, has added to the trace
  when it ended with \<open>r\<close>: when it completed, \<open>n\<close> commands, none failed under
  \<^verbatim>\<open>check\<close>; when it raised \<open>CommandFailed\<close>, the failed command is the last event.
\<close>

definition ran_ok :: "nat \<Rightarrow> exn option \<Rightarrow> event list \<Rightarrow> bool" where
  "ran_ok n r new =
     (length new \<le> n \<and>
      (case r of
         None \<Rightarrow> length new = n \<and> clean new
       | Some x \<Rightarrow> (clean new \<and> (\<forall>c. x \<noteq> CommandFailed c))
                  \<or> (\<exists>pre c. new = pre @ [Ran c True False] \<and> clean pre \<and> x = CommandFailed c)))"

definition directive_stmt :: "nat \<Rightarrow> stmt \<Rightarrow> bool" where
  "directive_stmt n s =
     (\<forall>m r m'. s m = (r, m') \<longrightarrow>
        state m' = state m \<and> disk m' = disk m \<and> (\<exists>new. trace m' = trace m @ new \<and> ran_ok n r new))"

text \<open>
  The teardown of a VPC as section 4.3 of the specification lists it: for every subnet its
  namespace and its host-side link, then the NAT rule of every public subnet, then the two
  isolation rules, then the bridge.
\<close>

definition teardown_cmds :: "vpc \<Rightarrow> string list" where
  "teardown_cmds vpc =
     concat (map (\<lambda>(subnet_name, subnet).
               [''ip netns del '' @ sn_namespace subnet, ''ip link del '' @ sn_veth_host subnet])
             (vpc_subnets vpc))
     @ map (\<lambda>(subnet_name, subnet).
               ''iptables -t nat -D POSTROUTING -s '' @ sn_cidr subnet @ '' -o ''
                 @ vpc_internet_interface vpc @ '' -j MASQUERADE'')
           (filter (\<lambda>(subnet_name, subnet). sn_type subnet = ''public'') (vpc_subnets vpc))
     @ [''iptables -D FORWARD -i '' @ vpc_bridge vpc @ '' -o '' @ vpc_bridge vpc @ '' -j ACCEPT'',
        ''iptables -D FORWARD -i '' @ vpc_bridge vpc @ '' ! -o '' @ vpc_bridge vpc @ '' -j DROP'',
        ''ip link del '' @ vpc_bridge vpc]"


section \<open>Evaluating the digest\<close>

lemma replicate_numeral_unfold: "replicate (numeral v) x = x # replicate (numeral v - 1) x"
  by (simp add: numeral_eq_Suc)


lemma md5_pad_app1app2:
  "md5_pad (encode ''app1app2'') =
     [97, 112, 112, 49, 97, 112, 112, 50, 128, 0, 0, 0, 0, 0, 0, 0, 0, 0, 0, 0, 0, 0, 0, 0, 0,
     0, 0, 0, 0, 0, 0, 0, 0, 0, 0, 0, 0, 0, 0, 0, 0, 0, 0, 0, 0, 0, 0, 0, 0, 0, 0, 0, 0, 0, 0,
     0, 64, 0, 0, 0, 0, 0, 0, 0]"
  by (simp add: md5_pad_def encode_def le_bytes_def replicate_numeral_unfold upt_rec)

lemma md5_block_app1app2:
  "md5_block md5_init
     [97, 112, 112, 49, 97, 112, 112, 50, 128, 0, 0, 0, 0, 0, 0, 0, 0, 0, 0, 0, 0, 0, 0, 0, 0,
     0, 0, 0, 0, 0, 0, 0, 0, 0, 0, 0, 0, 0, 0, 0, 0, 0, 0, 0, 0, 0, 0, 0, 0, 0, 0, 0, 0, 0, 0,
     0, 64, 0, 0, 0, 0, 0, 0, 0] =
   (3622842489, 440047981, 1760420387, 338680102)"
  by (simp add: md5_block_def md5_init_def le_word_def md5_step_def md5_K_def md5_s_def upt_rec)

lemma name_digest_app1app2: "take 6 (md5_hexdigest ''app1app2'') = ''7930f0''"
  by (simp add: md5_hexdigest_def md5_digest_def md5_pad_app1app2 md5_block_app1app2
      hexdigest_def hex_digit_def le_bytes_def upt_rec)


lemma md5_pad_app2app1:
  "md5_pad (encode ''app2app1'') =
     [97, 112, 112, 50, 97, 112, 112, 49, 128, 0, 0, 0, 0, 0, 0, 0, 0, 0, 0, 0, 0, 0, 0, 0, 0,
     0, 0, 0, 0, 0, 0, 0, 0, 0, 0, 0, 0, 0, 0, 0, 0, 0, 0, 0, 0, 0, 0, 0, 0, 0, 0, 0, 0, 0, 0,
     0, 64, 0, 0, 0, 0, 0, 0, 0]"
  by (simp add: md5_pad_def encode_def le_bytes_def replicate_numeral_unfold upt_rec)

lemma md5_block_app2app1:
  "md5_block md5_init
     [97, 112, 112, 50, 97, 112, 112, 49, 128, 0, 0, 0, 0, 0, 0, 0, 0, 0, 0, 0, 0, 0, 0, 0, 0,
     0, 0, 0, 0, 0, 0, 0, 0, 0, 0, 0, 0, 0, 0, 0, 0, 0, 0, 0, 0, 0, 0, 0, 0, 0, 0, 0, 0, 0, 0,
     0, 64, 0, 0, 0, 0, 0, 0, 0] =
   (114282762, 2740714298, 2539207245, 1116236941)"
  by (simp add: md5_block_def md5_init_def le_word_def md5_step_def md5_K_def md5_s_def upt_rec)

lemma name_digest_app2app1: "take 6 (md5_hexdigest ''app2app1'') = ''0ad1cf''"
  by (simp add: md5_hexdigest_def md5_digest_def md5_pad_app2app1 md5_block_app2app1
      hexdigest_def hex_digit_def le_bytes_def upt_rec)


section \<open>Identifier derivation\<close>

lemma takeWhile_before_dash:
  assumes "CHR ''-'' \<notin> set v"
  shows "takeWhile (\<lambda>c. c \<noteq> CHR ''-'') (v @ CHR ''-'' # s) = v"
  using assms by (induction v) auto

lemma ns_name_inj:
  assumes "CHR ''-'' \<notin> set v1" and "CHR ''-'' \<notin> set v2"
    and "ns_name v1 s1 = ns_name v2 s2"
  shows "v1 = v2 \<and> s1 = s2"
proof -
  from assms(3) have eq: "v1 @ CHR ''-'' # s1 = v2 @ CHR ''-'' # s2"
    by (simp add: ns_name_def)
  then have "takeWhile (\<lambda>c. c \<noteq> CHR ''-'') (v1 @ CHR ''-'' # s1)
           = takeWhile (\<lambda>c. c \<noteq> CHR ''-'') (v2 @ CHR ''-'' # s2)"
    by simp
  then have "v1 = v2"
    using assms(1,2) by (simp add: takeWhile_before_dash)
  with eq show ?thesis by simp
qed

text \<open>
  C1 as stated fails: \<^verbatim>\<open>peer_vpcs\<close> hashes the two names in argument order, so the two
  directions of one peering get different link names. For \<^verbatim>\<open>app1\<close> and \<^verbatim>\<open>app2\<close> the hashes
  are \<^verbatim>\<open>7930f0\<close> and \<^verbatim>\<open>0ad1cf\<close>.
\<close>

theorem peer_ids_order_counterexample:
  "(peer_veth1 ''app1'' ''app2'', peer_veth2 ''app1'' ''app2'')
     \<noteq> (peer_veth1 ''app2'' ''app1'', peer_veth2 ''app2'' ''app1'')"
  by (simp add: peer_veth1_def peer_veth2_def peer_hash_def name_digest_app1app2 name_digest_app2app1)

text \<open>
  C1, amended: the peering link names are \<^verbatim>\<open>pr1\<close> and \<^verbatim>\<open>pr2\<close> followed by the first six
  hexadecimal digits of the MD5 digest of the first name followed by the second, in argument
  order. They are the same for Peer(A, B) and Peer(B, A) whenever A followed by B equals B
  followed by A.
\<close>

theorem peer_ids_by_concatenation:
  "peer_veth1 A B = ''pr1'' @ take 6 (md5_hexdigest (A @ B))
   \<and> peer_veth2 A B = ''pr2'' @ take 6 (md5_hexdigest (A @ B))
   \<and> (A @ B = B @ A \<longrightarrow> peer_veth1 A B = peer_veth1 B A \<and> peer_veth2 A B = peer_veth2 B A)"
  by (simp add: peer_veth1_def peer_veth2_def peer_hash_def)

theorem peer_ids_by_concatenation_witness:
  "''ab'' @ ''abab'' = ''abab'' @ ''ab''
   \<and> peer_veth1 ''ab'' ''abab'' = peer_veth1 ''abab'' ''ab''
   \<and> peer_veth2 ''ab'' ''abab'' = peer_veth2 ''abab'' ''ab''"
proof -
  have c: "''ab'' @ ''abab'' = ''abab'' @ ''ab''" by simp
  from peer_ids_by_concatenation [of "''ab''" "''abab''"] c show ?thesis by blast
qed

text \<open>
  C9 as stated fails: the namespace name joins the two names with a dash, and the link names
  hash their concatenation, so distinct pairs can share either.
\<close>

theorem subnet_ids_not_injective_counterexample:
  "(''prod-eu'', ''web'') \<noteq> (''prod'', ''eu-web'')
   \<and> ns_name ''prod-eu'' ''web'' = ns_name ''prod'' ''eu-web''
   \<and> (''app'', ''1web'') \<noteq> (''app1'', ''web'')
   \<and> veth_host ''app'' ''1web'' = veth_host ''app1'' ''web''
   \<and> veth_ns ''app'' ''1web'' = veth_ns ''app1'' ''web''"
  by (simp add: ns_name_def veth_host_def veth_ns_def name_hash_def)

text \<open>
  C9, amended: the identifiers are functions of the pair of names. Two distinct pairs get
  distinct namespace names when neither VPC name contains a dash; the link names depend on
  the concatenation of the two names only, so pairs with the same concatenation share them.
\<close>

theorem subnet_ids_by_pair:
  "((v1, s1) \<noteq> (v2, s2) \<longrightarrow> CHR ''-'' \<notin> set v1 \<longrightarrow> CHR ''-'' \<notin> set v2
      \<longrightarrow> ns_name v1 s1 \<noteq> ns_name v2 s2)
   \<and> (v1 @ s1 = v2 @ s2
      \<longrightarrow> veth_host v1 s1 = veth_host v2 s2 \<and> veth_ns v1 s1 = veth_ns v2 s2)"
  using ns_name_inj [of v1 v2 s1 s2]
  by (auto simp: veth_host_def veth_ns_def name_hash_def)

theorem subnet_ids_by_pair_witness:
  "(''app1'', ''web'') \<noteq> (''app1'', ''db'') \<and> CHR ''-'' \<notin> set ''app1''
   \<and> ns_name ''app1'' ''web'' \<noteq> ns_name ''app1'' ''db''
   \<and> ''app'' @ ''1web'' = ''app1'' @ ''web''
   \<and> veth_host ''app'' ''1web'' = veth_host ''app1'' ''web''
   \<and> veth_ns ''app'' ''1web'' = veth_ns ''app1'' ''web''"
  using subnet_ids_by_pair [of "''app1''" "''web''" "''app1''" "''db''"]
        subnet_ids_by_pair [of "''app''" "''1web''" "''app1''" "''web''"]
  by simp

section \<open>Running commands\<close>

lemma run_cmd_eq:
  "run_cmd eff cmd check capture m =
     (if check \<and> \<not> eff (trace m) cmd then Some (CommandFailed cmd) else None,
      m\<lparr>trace := trace m @ [Ran cmd check (eff (trace m) cmd)]\<rparr>)"
  by (simp add: run_cmd_def Let_def)

lemma VPCManager_simps:
  "state (VPCManager d) = d" "disk (VPCManager d) = d" "trace (VPCManager d) = []"
  by (simp_all add: VPCManager_def)

section \<open>Addressing\<close>


lemmas ip_network_eval =
  ip_network_def IPv4Network_def IPv6Network_def split_addr_prefix_def split_scope_id_def
  v4_ip_int_from_string_def v6_ip_int_from_string_def parse_octet_def v4_make_netmask_def
  v4_prefix_from_ip_string_def prefix_from_prefix_string_def isdigit_def int_of_digits_def

lemmas hosts_eval = hosts_def py_index_def broadcast_address_def max_prefixlen_def

lemmas str_host_eval = str_host_def v4_string_from_ip_int_def str_nat.simps




lemma str_nat_24: "str_nat 24 = ''24''"
  by (simp add: str_nat.simps)

text \<open>The other ways of writing a block: a netmask, a hostmask, IPv6.\<close>

lemma ip_network_netmask_forms:
  "ip_network ''10.0.1.0/255.255.255.0'' = Inr \<lparr>network_address = 167772416, prefixlen = 24, version = 4, scope_id = []\<rparr>"
  "ip_network ''10.0.1.0/0.0.0.255'' = Inr \<lparr>network_address = 167772416, prefixlen = 24, version = 4, scope_id = []\<rparr>"
  by (simp_all add: ip_network_eval prefix_from_ip_int_def count_righthand_zero_bits_def
      trailing_zero_bits.simps Let_def)

lemma ip_network_ipv6_form:
  "ip_network ''fd00::/126''
     = Inr \<lparr>network_address = 336294682933583715844663186250927177728, prefixlen = 126,
            version = 6, scope_id = []\<rparr>"
  by (simp add: ip_network_eval parse_hextet_def hex_value_def upt_rec Let_def)


section \<open>Sequences of commands\<close>

lemma clean_simps [simp]:
  "clean []" "clean (e # evs) = (e \<noteq> Saved \<and> \<not> failed_abort e \<and> clean evs)"
  "clean (xs @ ys) = (clean xs \<and> clean ys)"
  by (auto simp: clean_def)

lemma clean_not_failed:
  assumes "clean new"
  shows "new \<noteq> pre @ Ran cmd True False # post"
proof
  assume "new = pre @ Ran cmd True False # post"
  with assms show False by simp
qed

lemma clean_not_Saved:
  assumes "clean new"
  shows "Saved \<notin> set new"
  using assms by (induction new) auto

lemma failed_only_last:
  assumes "clean pre'" and "pre' @ [e] = pre @ Ran cmd True False # post"
  shows "post = [] \<and> e = Ran cmd True False \<and> pre' = pre"
proof (cases post rule: rev_cases)
  case Nil
  with assms(2) show ?thesis by simp
next
  case (snoc ys y)
  with assms(2) have "pre' = pre @ Ran cmd True False # ys" by simp
  with assms(1) show ?thesis by simp
qed

lemma ran_ok_None: "ran_ok n None new = (length new = n \<and> clean new)"
  by (auto simp: ran_ok_def)

lemma ran_ok_Some_mono:
  assumes "ran_ok n (Some x) new"
  shows "ran_ok (n + k) (Some x) new"
  using assms by (simp add: ran_ok_def)

lemma ran_ok_append:
  assumes "ran_ok n None new1" and "ran_ok k r new2"
  shows "ran_ok (n + k) r (new1 @ new2)"
proof (cases r)
  case None
  with assms show ?thesis by (simp add: ran_ok_None)
next
  case (Some x)
  from assms(1) have cl1: "length new1 = n" "clean new1" by (simp_all add: ran_ok_None)
  from assms(2) Some have len2: "length new2 \<le> k" by (simp add: ran_ok_def)
  from assms(2) Some consider (a) "clean new2" "\<forall>c. x \<noteq> CommandFailed c"
    | (b) pre c where "new2 = pre @ [Ran c True False]" "clean pre" "x = CommandFailed c"
    by (auto simp: ran_ok_def)
  then show ?thesis
  proof cases
    case a
    with Some cl1 len2 show ?thesis by (simp add: ran_ok_def)
  next
    case b
    have "new1 @ new2 = (new1 @ pre) @ [Ran c True False] \<and> clean (new1 @ pre) \<and> x = CommandFailed c"
      using b cl1 by simp
    then have "\<exists>pre' c. new1 @ new2 = pre' @ [Ran c True False] \<and> clean pre' \<and> x = CommandFailed c"
      by blast
    with Some cl1 len2 show ?thesis by (simp add: ran_ok_def)
  qed
qed

lemma directive_stmtD:
  assumes "directive_stmt n s" and "s m = (r, m')"
  shows "state m' = state m" and "disk m' = disk m"
    and "\<exists>new. trace m' = trace m @ new \<and> ran_ok n r new"
  using assms unfolding directive_stmt_def by blast+

lemma run_cmd_directive: "directive_stmt 1 (run_cmd eff cmd check capture)"
  unfolding directive_stmt_def
proof (intro allI impI)
  fix m r m'
  assume run: "run_cmd eff cmd check capture m = (r, m')"
  let ?e = "Ran cmd check (eff (trace m) cmd)"
  from run have m': "m' = m\<lparr>trace := trace m @ [?e]\<rparr>"
    and r: "r = (if check \<and> \<not> eff (trace m) cmd then Some (CommandFailed cmd) else None)"
    by (simp_all add: run_cmd_eq)
  have "ran_ok 1 r [?e]"
  proof (cases "check \<and> \<not> eff (trace m) cmd")
    case True
    then have "[?e] = [] @ [Ran cmd True False] \<and> clean [] \<and> CommandFailed cmd = CommandFailed cmd"
      by simp
    then have "\<exists>pre c. [?e] = pre @ [Ran c True False] \<and> clean pre \<and> CommandFailed cmd = CommandFailed c"
      by blast
    with True r show ?thesis by (simp add: ran_ok_def)
  next
    case False
    with r show ?thesis by (auto simp: ran_ok_def)
  qed
  with m' show "state m' = state m \<and> disk m' = disk m \<and> (\<exists>new. trace m' = trace m @ new \<and> ran_ok 1 r new)"
    by auto
qed

lemma block_Nil_directive: "directive_stmt 0 (block [])"
  by (simp add: directive_stmt_def ran_ok_def)

lemma block_Cons_directive:
  assumes s: "directive_stmt n s" and ss: "directive_stmt k (block ss)"
  shows "directive_stmt (n + k) (block (s # ss))"
  unfolding directive_stmt_def
proof (intro allI impI)
  fix m r m'
  assume run: "block (s # ss) m = (r, m')"
  obtain r1 m1 where s1: "s m = (r1, m1)" by fastforce
  note d1 = directive_stmtD [OF s s1]
  from d1(3) obtain new1 where new1: "trace m1 = trace m @ new1" "ran_ok n r1 new1"
    by blast
  show "state m' = state m \<and> disk m' = disk m \<and> (\<exists>new. trace m' = trace m @ new \<and> ran_ok (n + k) r new)"
  proof (cases r1)
    case (Some x)
    with s1 run have eq: "r = Some x" "m' = m1" by simp_all
    from new1(2) Some have "ran_ok (n + k) (Some x) new1" by (simp add: ran_ok_Some_mono)
    with eq d1(1,2) new1(1) show ?thesis by blast
  next
    case None
    with s1 run have s2: "block ss m1 = (r, m')" by simp
    note d2 = directive_stmtD [OF ss s2]
    from d2(3) obtain new2 where new2: "trace m' = trace m1 @ new2" "ran_ok k r new2"
      by blast
    from new1(2) None new2(2) have "ran_ok (n + k) r (new1 @ new2)"
      by (simp add: ran_ok_append)
    moreover have "trace m' = trace m @ (new1 @ new2)" using new1(1) new2(1) by simp
    ultimately show ?thesis using d1(1,2) d2(1,2) by metis
  qed
qed

lemma block_append_directive:
  assumes "directive_stmt n (block ss)" and "directive_stmt k (block ts)"
  shows "directive_stmt (n + k) (block (ss @ ts))"
  unfolding directive_stmt_def
proof (intro allI impI)
  fix m r m'
  assume run: "block (ss @ ts) m = (r, m')"
  have split: "block (ss @ ts) m = (case block ss m of (Some e, m1) \<Rightarrow> (Some e, m1) | (None, m1) \<Rightarrow> block ts m1)"
    for m
    by (induction ss arbitrary: m) (auto split: prod.splits option.splits)
  obtain r1 m1 where s1: "block ss m = (r1, m1)" by fastforce
  note d1 = directive_stmtD [OF assms(1) s1]
  from d1(3) obtain new1 where new1: "trace m1 = trace m @ new1" "ran_ok n r1 new1"
    by blast
  show "state m' = state m \<and> disk m' = disk m \<and> (\<exists>new. trace m' = trace m @ new \<and> ran_ok (n + k) r new)"
  proof (cases r1)
    case (Some x)
    with s1 run split [of m] have eq: "r = Some x" "m' = m1" by simp_all
    from new1(2) Some have "ran_ok (n + k) (Some x) new1" by (simp add: ran_ok_Some_mono)
    with eq d1(1,2) new1(1) show ?thesis by blast
  next
    case None
    with s1 run split [of m] have s2: "block ts m1 = (r, m')" by simp
    note d2 = directive_stmtD [OF assms(2) s2]
    from d2(3) obtain new2 where new2: "trace m' = trace m1 @ new2" "ran_ok k r new2"
      by blast
    from new1(2) None new2(2) have "ran_ok (n + k) r (new1 @ new2)"
      by (simp add: ran_ok_append)
    moreover have "trace m' = trace m @ (new1 @ new2)" using new1(1) new2(1) by simp
    ultimately show ?thesis using d1(1,2) d2(1,2) by metis
  qed
qed

lemma three_cmds_directive:
  "directive_stmt 3 (block [run_cmd eff a c1 c2, run_cmd eff a' c1' c2', run_cmd eff a'' c1'' c2''])"
proof -
  have "directive_stmt (1 + (1 + (1 + 0)))
          (block [run_cmd eff a c1 c2, run_cmd eff a' c1' c2', run_cmd eff a'' c1'' c2''])"
    by (intro block_Cons_directive run_cmd_directive block_Nil_directive)
  then show ?thesis by (simp add: eval_nat_numeral)
qed

lemma five_cmds_directive:
  "directive_stmt 5 (block [run_cmd eff a1 c1 p1, run_cmd eff a2 c2 p2, run_cmd eff a3 c3 p3,
                            run_cmd eff a4 c4 p4, run_cmd eff a5 c5 p5])"
proof -
  have "directive_stmt (1 + (1 + (1 + (1 + (1 + 0)))))
          (block [run_cmd eff a1 c1 p1, run_cmd eff a2 c2 p2, run_cmd eff a3 c3 p3,
                  run_cmd eff a4 c4 p4, run_cmd eff a5 c5 p5])"
    by (intro block_Cons_directive run_cmd_directive block_Nil_directive)
  then show ?thesis by (simp add: eval_nat_numeral)
qed

lemma setup_nat_directive: "directive_stmt 3 (setup_nat eff vpc_name subnet_cidr)"
  unfolding directive_stmt_def
proof (intro allI impI)
  fix m r m'
  assume run: "setup_nat eff vpc_name subnet_cidr m = (r, m')"
  show "state m' = state m \<and> disk m' = disk m \<and> (\<exists>new. trace m' = trace m @ new \<and> ran_ok 3 r new)"
  proof (cases "map_of (state m) vpc_name")
    case None
    with run have "r = Some KeyError" "m' = m" by (simp_all add: setup_nat_def)
    then show ?thesis by (simp add: ran_ok_def)
  next
    case (Some vpc)
    with run obtain a a' a'' where "block [run_cmd eff a True True, run_cmd eff a' True True, run_cmd eff a'' True True] m = (r, m')"
      by (simp add: setup_nat_def Let_def)
    from directive_stmtD [OF three_cmds_directive this] show ?thesis by blast
  qed
qed


section \<open>How CreateVPC and AddSubnet can end\<close>

lemma five_cmds_raise:
  assumes "block [run_cmd eff a1 c1 p1, run_cmd eff a2 c2 p2, run_cmd eff a3 c3 p3,
                  run_cmd eff a4 c4 p4, run_cmd eff a5 c5 p5] m = (Some x, m')"
  shows "\<exists>c. x = CommandFailed c"
  using assms by (auto simp: run_cmd_eq split: if_splits)

lemma two_cmds_directive:
  "directive_stmt 2 (block [run_cmd eff a c1 c2, run_cmd eff a' c1' c2'])"
proof -
  have "directive_stmt (1 + (1 + 0)) (block [run_cmd eff a c1 c2, run_cmd eff a' c1' c2'])"
    by (intro block_Cons_directive run_cmd_directive block_Nil_directive)
  then show ?thesis by (simp add: eval_nat_numeral)
qed

lemma v4_ip_int_from_string_error:
  assumes "v4_ip_int_from_string ip_str = Inl e"
  shows "e = AddressValueError"
  using assms
  by (auto simp: v4_ip_int_from_string_def split: list.splits sum.splits if_splits)

lemma prefix_from_prefix_string_error:
  assumes "prefix_from_prefix_string max_len s = Inl e"
  shows "e = NetmaskValueError"
  using assms by (auto simp: prefix_from_prefix_string_def split: if_splits)

lemma v4_make_netmask_error:
  assumes "v4_make_netmask arg = Inl e"
  shows "e = NetmaskValueError"
  using assms
  by (auto simp: v4_make_netmask_def v4_prefix_from_ip_string_def split: sum.splits)

lemma split_addr_prefix_error:
  assumes "split_addr_prefix address = Inl e"
  shows "e = AddressValueError"
  using assms by (auto simp: split_addr_prefix_def split: list.splits)

lemma IPv4Network_error:
  assumes "IPv4Network address = Inl e"
  shows "e = AddressValueError \<or> e = NetmaskValueError \<or> e = ValueError"
  using assms
  by (auto simp: IPv4Network_def split: sum.splits prod.splits option.splits if_splits
      dest: v4_ip_int_from_string_error v4_make_netmask_error split_addr_prefix_error)

lemma parse_hextets_error:
  assumes "parse_hextets ip_int parts = Inl e"
  shows "e = AddressValueError"
  using assms by (induction parts arbitrary: ip_int) (auto split: sum.splits)

lemma v6_ip_int_from_string_error:
  assumes "v6_ip_int_from_string ip_str = Inl e"
  shows "e = AddressValueError"
  using assms
  by (auto simp: v6_ip_int_from_string_def Let_def split: list.splits sum.splits if_splits
      dest: parse_hextets_error)

lemma split_scope_id_error:
  assumes "split_scope_id ip_str = Inl e"
  shows "e = AddressValueError"
  using assms by (auto simp: split_scope_id_def Let_def split: if_splits)

lemma IPv6Network_error:
  assumes "IPv6Network address = Inl e"
  shows "e = AddressValueError \<or> e = NetmaskValueError \<or> e = ValueError"
  using assms
  by (auto simp: IPv6Network_def split: sum.splits prod.splits option.splits if_splits
      dest: v6_ip_int_from_string_error prefix_from_prefix_string_error split_addr_prefix_error
        split_scope_id_error)

lemma ip_network_error:
  assumes "ip_network address = Inl e"
  shows "e = ValueError"
  using assms
  by (auto simp: ip_network_def split: sum.splits if_splits
      dest: IPv4Network_error IPv6Network_error)

lemma py_index_error:
  assumes "py_index xs i = Inl e"
  shows "e = IndexError \<and> length xs \<le> i"
  using assms by (simp add: py_index_def split: if_splits)

text \<open>The operation once its precondition check has passed.\<close>

lemma create_vpc_unfold:
  assumes "map_of (state m) vpc_name = None"
  shows "create_vpc eff vpc_name cidr_block internet_interface m =
     (case block
          [run_cmd eff (''ip link add '' @ (''br-'' @ vpc_name) @ '' type bridge'') True True,
           run_cmd eff (''ip link set '' @ (''br-'' @ vpc_name) @ '' up'') True True,
           run_cmd eff ''echo 1 > /proc/sys/net/bridge/bridge-nf-call-iptables'' False True,
           run_cmd eff (''iptables -A FORWARD -i '' @ (''br-'' @ vpc_name) @ '' -o '' @ (''br-'' @ vpc_name) @ '' -j ACCEPT'') False True,
           run_cmd eff (''iptables -A FORWARD -i '' @ (''br-'' @ vpc_name) @ '' ! -o '' @ (''br-'' @ vpc_name) @ '' -j DROP'') False True] m
      of (Some e, m1) \<Rightarrow> (Raised e, m1)
      | (None, m1) \<Rightarrow>
         (case ip_network cidr_block of Inl e \<Rightarrow> (Raised e, m1)
          | Inr network \<Rightarrow>
             (case py_index (hosts network) 0 of Inl e \<Rightarrow> (Raised e, m1)
              | Inr first_host \<Rightarrow>
                 (case block
                     [run_cmd eff (''ip addr add '' @ str_host network first_host @ ''/'' @ str_nat (prefixlen network)
                                     @ '' dev '' @ (''br-'' @ vpc_name)) True True,
                      run_cmd eff ''sysctl -w net.ipv4.ip_forward=1'' True False] m1
                  of (Some e, m2) \<Rightarrow> (Raised e, m2)
                  | (None, m2) \<Rightarrow>
                     (Succeeded,
                      save_state (m2\<lparr>state := AList.update vpc_name
                        \<lparr>vpc_cidr = cidr_block, vpc_bridge = ''br-'' @ vpc_name,
                         vpc_bridge_ip = str_host network first_host,
                         vpc_internet_interface = internet_interface, vpc_subnets = []\<rparr> (state m2)\<rparr>))))))"
  using assms unfolding create_vpc_def Let_def by simp

lemma create_vpc_outcomes:
  assumes run: "create_vpc eff vpc_name cidr_block internet_interface m = (out, m')"
  shows "(\<exists>msg. out = Rejected msg \<and> m' = m)
       \<or> (\<exists>x new. out = Raised x \<and> disk m' = disk m \<and> trace m' = trace m @ new \<and> ran_ok 7 (Some x) new)
       \<or> (\<exists>new. out = Succeeded \<and> trace m' = trace m @ new @ [Saved] \<and> clean new)"
proof (cases "map_of (state m) vpc_name")
  case (Some v)
  with run show ?thesis by (auto simp: create_vpc_def)
next
  case None
  note unf = create_vpc_unfold [OF None, of eff cidr_block internet_interface]
  let ?b1 = "block
          [run_cmd eff (''ip link add '' @ (''br-'' @ vpc_name) @ '' type bridge'') True True,
           run_cmd eff (''ip link set '' @ (''br-'' @ vpc_name) @ '' up'') True True,
           run_cmd eff ''echo 1 > /proc/sys/net/bridge/bridge-nf-call-iptables'' False True,
           run_cmd eff (''iptables -A FORWARD -i '' @ (''br-'' @ vpc_name) @ '' -o '' @ (''br-'' @ vpc_name) @ '' -j ACCEPT'') False True,
           run_cmd eff (''iptables -A FORWARD -i '' @ (''br-'' @ vpc_name) @ '' ! -o '' @ (''br-'' @ vpc_name) @ '' -j DROP'') False True]"
  obtain r1 m1 where s1: "?b1 m = (r1, m1)" by fastforce
  note d1 = directive_stmtD [OF five_cmds_directive s1]
  from d1(3) obtain new1 where new1: "trace m1 = trace m @ new1" "ran_ok 5 r1 new1" by blast
  show ?thesis
  proof (cases r1)
    case (Some x)
    with run unf s1 have "out = Raised x" "m' = m1" by simp_all
    moreover from new1(2) Some have "ran_ok 7 (Some x) new1"
      using ran_ok_Some_mono [of 5 x new1 2] by simp
    ultimately show ?thesis using d1(2) new1(1) by blast
  next
    case None
    note r1 = None
    from new1(2) r1 have cl1: "length new1 = 5" "clean new1" by (simp_all add: ran_ok_None)
    have raised_here: ?thesis if "out = Raised x" "m' = m1" "\<forall>c. x \<noteq> CommandFailed c" for x
    proof -
      from cl1 that(3) have "ran_ok 7 (Some x) new1" by (simp add: ran_ok_def)
      with that(1,2) d1(2) new1(1) show ?thesis by blast
    qed
    show ?thesis
    proof (cases "ip_network cidr_block")
      case (Inl e)
      then have "e = ValueError" by (rule ip_network_error)
      with Inl run unf s1 r1 have "out = Raised ValueError" "m' = m1" by simp_all
      then show ?thesis by (rule raised_here) simp
    next
      case (Inr network)
      note net = Inr
      show ?thesis
      proof (cases "py_index (hosts network) 0")
        case (Inl e)
        then have "e = IndexError" by (simp add: py_index_error)
        with Inl net run unf s1 r1 have "out = Raised IndexError" "m' = m1" by simp_all
        then show ?thesis by (rule raised_here) simp
      next
        case (Inr first_host)
        let ?b2 = "block
                     [run_cmd eff (''ip addr add '' @ str_host network first_host @ ''/'' @ str_nat (prefixlen network)
                                     @ '' dev '' @ (''br-'' @ vpc_name)) True True,
                      run_cmd eff ''sysctl -w net.ipv4.ip_forward=1'' True False]"
        obtain r2 m2 where s2: "?b2 m1 = (r2, m2)" by fastforce
        note d2 = directive_stmtD [OF two_cmds_directive s2]
        from d2(3) obtain new2 where new2: "trace m2 = trace m1 @ new2" "ran_ok 2 r2 new2" by blast
        have tr: "trace m2 = trace m @ (new1 @ new2)" using new1(1) new2(1) by simp
        from new1(2) r1 new2(2) have ok: "ran_ok 7 r2 (new1 @ new2)"
          using ran_ok_append [of 5 new1 2 r2 new2] by simp
        show ?thesis
        proof (cases r2)
          case (Some x)
          with Inr net run unf s1 r1 s2 have "out = Raised x" "m' = m2" by simp_all
          moreover from ok Some have "ran_ok 7 (Some x) (new1 @ new2)" by simp
          ultimately show ?thesis using d1(2) d2(2) tr by metis
        next
          case None
          with Inr net run unf s1 r1 s2 have "out = Succeeded"
            and m': "m' = save_state (m2\<lparr>state := AList.update vpc_name
                        \<lparr>vpc_cidr = cidr_block, vpc_bridge = ''br-'' @ vpc_name,
                         vpc_bridge_ip = str_host network first_host,
                         vpc_internet_interface = internet_interface, vpc_subnets = []\<rparr> (state m2)\<rparr>)"
            by simp_all
          moreover from m' tr have "trace m' = trace m @ (new1 @ new2) @ [Saved]"
            by (simp add: save_state_def)
          moreover from ok None have "clean (new1 @ new2)" by (simp add: ran_ok_None)
          ultimately show ?thesis by blast
        qed
      qed
    qed
  qed
qed


lemma add_subnet_unfold:
  assumes "map_of (state m) vpc_name = Some vpc"
  shows "add_subnet eff vpc_name subnet_name subnet_cidr subnet_type m =
     (case block
           [run_cmd eff (''ip netns add '' @ ns_name vpc_name subnet_name) True True,
            run_cmd eff (''ip link add '' @ veth_host vpc_name subnet_name @ '' type veth peer name ''
                           @ veth_ns vpc_name subnet_name) True True,
            run_cmd eff (''ip link set '' @ veth_ns vpc_name subnet_name @ '' netns ''
                           @ ns_name vpc_name subnet_name) True True,
            run_cmd eff (''ip link set '' @ veth_host vpc_name subnet_name @ '' master '' @ vpc_bridge vpc) True True,
            run_cmd eff (''ip link set '' @ veth_host vpc_name subnet_name @ '' up'') True True] m
      of (Some e, m1) \<Rightarrow> (Raised e, m1)
      | (None, m1) \<Rightarrow>
         (case ip_network subnet_cidr of Inl e \<Rightarrow> (Raised e, m1)
          | Inr subnet_net \<Rightarrow>
             (case py_index (hosts subnet_net) 0 of Inl e \<Rightarrow> (Raised e, m1)
              | Inr first_host \<Rightarrow>
                 (case py_index (hosts subnet_net) 1 of Inl e \<Rightarrow> (Raised e, m1)
                  | Inr second_host \<Rightarrow>
                     (case block
                          ([run_cmd eff (''ip netns exec '' @ ns_name vpc_name subnet_name @ '' ip link set lo up'') True True,
                            run_cmd eff (''ip netns exec '' @ ns_name vpc_name subnet_name @ '' ip addr add ''
                                           @ str_host subnet_net first_host @ ''/'' @ str_nat (prefixlen subnet_net)
                                           @ '' dev '' @ veth_ns vpc_name subnet_name) True True,
                            run_cmd eff (''ip netns exec '' @ ns_name vpc_name subnet_name @ '' ip link set ''
                                           @ veth_ns vpc_name subnet_name @ '' up'') True True,
                            run_cmd eff (''ip addr add '' @ str_host subnet_net second_host @ ''/''
                                           @ str_nat (prefixlen subnet_net) @ '' dev '' @ vpc_bridge vpc) True True,
                            run_cmd eff (''ip netns exec '' @ ns_name vpc_name subnet_name
                                           @ '' ip route add default via '' @ str_host subnet_net second_host) True True]
                           @ (if subnet_type = ''public'' then [setup_nat eff vpc_name subnet_cidr] else [])) m1
                      of (Some e, m2) \<Rightarrow> (Raised e, m2)
                      | (None, m2) \<Rightarrow>
                         (Succeeded,
                          save_state (m2\<lparr>state := AList.update vpc_name
                            (vpc\<lparr>vpc_subnets := AList.update subnet_name
                               \<lparr>sn_cidr = subnet_cidr, sn_type = subnet_type,
                                sn_namespace = ns_name vpc_name subnet_name,
                                sn_ip = str_host subnet_net first_host, sn_gateway = str_host subnet_net second_host,
                                sn_veth_host = veth_host vpc_name subnet_name,
                                sn_veth_ns = veth_ns vpc_name subnet_name\<rparr> (vpc_subnets vpc)\<rparr>)
                            (state m2)\<rparr>)))))))"
  using assms unfolding add_subnet_def Let_def by simp

lemma nat_tail_directive:
  "directive_stmt 8 (block ([run_cmd eff a1 c1 p1, run_cmd eff a2 c2 p2, run_cmd eff a3 c3 p3,
                             run_cmd eff a4 c4 p4, run_cmd eff a5 c5 p5]
                            @ [setup_nat eff vpc_name subnet_cidr]))"
proof -
  have "directive_stmt (3 + 0) (block [setup_nat eff vpc_name subnet_cidr])"
    by (intro block_Cons_directive setup_nat_directive block_Nil_directive)
  with five_cmds_directive [of eff a1 c1 p1 a2 c2 p2 a3 c3 p3 a4 c4 p4 a5 c5 p5]
  have "directive_stmt (5 + (3 + 0)) (block ([run_cmd eff a1 c1 p1, run_cmd eff a2 c2 p2, run_cmd eff a3 c3 p3,
                             run_cmd eff a4 c4 p4, run_cmd eff a5 c5 p5]
                            @ [setup_nat eff vpc_name subnet_cidr]))"
    by (rule block_append_directive)
  then show ?thesis by simp
qed

lemma add_subnet_outcomes:
  assumes run: "add_subnet eff vpc_name subnet_name subnet_cidr subnet_type m = (out, m')"
  shows "(\<exists>msg. out = Rejected msg \<and> m' = m)
       \<or> (\<exists>x new. out = Raised x \<and> disk m' = disk m \<and> trace m' = trace m @ new \<and> ran_ok 13 (Some x) new)
       \<or> (\<exists>new. out = Succeeded \<and> trace m' = trace m @ new @ [Saved] \<and> clean new)"
proof (cases "map_of (state m) vpc_name")
  case None
  with run show ?thesis by (auto simp: add_subnet_def)
next
  case (Some vpc)
  note unf = add_subnet_unfold [OF Some, of eff subnet_name subnet_cidr subnet_type]
  let ?b1 = "block
           [run_cmd eff (''ip netns add '' @ ns_name vpc_name subnet_name) True True,
            run_cmd eff (''ip link add '' @ veth_host vpc_name subnet_name @ '' type veth peer name ''
                           @ veth_ns vpc_name subnet_name) True True,
            run_cmd eff (''ip link set '' @ veth_ns vpc_name subnet_name @ '' netns ''
                           @ ns_name vpc_name subnet_name) True True,
            run_cmd eff (''ip link set '' @ veth_host vpc_name subnet_name @ '' master '' @ vpc_bridge vpc) True True,
            run_cmd eff (''ip link set '' @ veth_host vpc_name subnet_name @ '' up'') True True]"
  obtain r1 m1 where s1: "?b1 m = (r1, m1)" by fastforce
  note d1 = directive_stmtD [OF five_cmds_directive s1]
  from d1(3) obtain new1 where new1: "trace m1 = trace m @ new1" "ran_ok 5 r1 new1" by blast
  show ?thesis
  proof (cases r1)
    case (Some x)
    with run unf s1 have "out = Raised x" "m' = m1" by simp_all
    moreover from new1(2) Some have "ran_ok 13 (Some x) new1"
      using ran_ok_Some_mono [of 5 x new1 8] by simp
    ultimately show ?thesis using d1(2) new1(1) by blast
  next
    case None
    note r1 = None
    from new1(2) r1 have cl1: "length new1 = 5" "clean new1" by (simp_all add: ran_ok_None)
    have raised_here: ?thesis if "out = Raised x" "m' = m1" "\<forall>c. x \<noteq> CommandFailed c" for x
    proof -
      from cl1 that(3) have "ran_ok 13 (Some x) new1" by (simp add: ran_ok_def)
      with that(1,2) d1(2) new1(1) show ?thesis by blast
    qed
    show ?thesis
    proof (cases "ip_network subnet_cidr")
      case (Inl e)
      then have "e = ValueError" by (rule ip_network_error)
      with Inl run unf s1 r1 have "out = Raised ValueError" "m' = m1" by simp_all
      then show ?thesis by (rule raised_here) simp
    next
      case (Inr subnet_net)
      note net = Inr
      show ?thesis
      proof (cases "py_index (hosts subnet_net) 0")
        case (Inl e)
        then have "e = IndexError" by (simp add: py_index_error)
        with Inl net run unf s1 r1 have "out = Raised IndexError" "m' = m1" by simp_all
        then show ?thesis by (rule raised_here) simp
      next
        case (Inr first_host)
        note h0 = Inr
        show ?thesis
        proof (cases "py_index (hosts subnet_net) 1")
          case (Inl e)
          then have "e = IndexError" by (simp add: py_index_error)
          with Inl h0 net run unf s1 r1 have "out = Raised IndexError" "m' = m1" by simp_all
          then show ?thesis by (rule raised_here) simp
        next
          case (Inr second_host)
          let ?five = "[run_cmd eff (''ip netns exec '' @ ns_name vpc_name subnet_name @ '' ip link set lo up'') True True,
                            run_cmd eff (''ip netns exec '' @ ns_name vpc_name subnet_name @ '' ip addr add ''
                                           @ str_host subnet_net first_host @ ''/'' @ str_nat (prefixlen subnet_net)
                                           @ '' dev '' @ veth_ns vpc_name subnet_name) True True,
                            run_cmd eff (''ip netns exec '' @ ns_name vpc_name subnet_name @ '' ip link set ''
                                           @ veth_ns vpc_name subnet_name @ '' up'') True True,
                            run_cmd eff (''ip addr add '' @ str_host subnet_net second_host @ ''/''
                                           @ str_nat (prefixlen subnet_net) @ '' dev '' @ vpc_bridge vpc) True True,
                            run_cmd eff (''ip netns exec '' @ ns_name vpc_name subnet_name
                                           @ '' ip route add default via '' @ str_host subnet_net second_host) True True]"
          let ?b2 = "block (?five @ (if subnet_type = ''public'' then [setup_nat eff vpc_name subnet_cidr] else []))"
          obtain r2 m2 where s2: "?b2 m1 = (r2, m2)" by fastforce
          have "\<exists>k. k \<le> 8 \<and> directive_stmt k ?b2"
          proof (cases "subnet_type = ''public''")
            case True
            have "directive_stmt 8 ?b2"
              unfolding if_P [OF True] by (rule nat_tail_directive)
            then show ?thesis by blast
          next
            case False
            have "directive_stmt 5 ?b2"
              unfolding if_not_P [OF False] append_Nil2 by (rule five_cmds_directive)
            moreover have "(5::nat) \<le> 8" by simp
            ultimately show ?thesis by blast
          qed
          then obtain k where k: "k \<le> 8" "directive_stmt k ?b2" by blast
          note d2 = directive_stmtD [OF k(2) s2]
          from d2(3) obtain new2 where new2: "trace m2 = trace m1 @ new2" "ran_ok k r2 new2" by blast
          have tr: "trace m2 = trace m @ (new1 @ new2)" using new1(1) new2(1) by simp
          from new1(2) r1 new2(2) have ok: "ran_ok (5 + k) r2 (new1 @ new2)"
            by (simp add: ran_ok_append)
          show ?thesis
          proof (cases r2)
            case (Some x)
            with Inr h0 net run unf s1 r1 s2 have "out = Raised x" "m' = m2" by simp_all
            moreover from ok Some k(1) have "ran_ok 13 (Some x) (new1 @ new2)"
              using ran_ok_Some_mono [of "5 + k" x "new1 @ new2" "8 - k"] by simp
            ultimately show ?thesis using d1(2) d2(2) tr by metis
          next
            case None
            with Inr h0 net run unf s1 r1 s2 have "out = Succeeded"
              and m': "m' = save_state (m2\<lparr>state := AList.update vpc_name
                            (vpc\<lparr>vpc_subnets := AList.update subnet_name
                               \<lparr>sn_cidr = subnet_cidr, sn_type = subnet_type,
                                sn_namespace = ns_name vpc_name subnet_name,
                                sn_ip = str_host subnet_net first_host, sn_gateway = str_host subnet_net second_host,
                                sn_veth_host = veth_host vpc_name subnet_name,
                                sn_veth_ns = veth_ns vpc_name subnet_name\<rparr> (vpc_subnets vpc)\<rparr>)
                            (state m2)\<rparr>)"
              by simp_all
            moreover from m' tr have "trace m' = trace m @ (new1 @ new2) @ [Saved]"
              by (simp add: save_state_def)
            moreover from ok None have "clean (new1 @ new2)" by (simp add: ran_ok_None)
            ultimately show ?thesis by blast
          qed
        qed
      qed
    qed
  qed
qed


section \<open>A failed directive ends the operation\<close>

lemma failed_abort_is_last:
  assumes outcomes:
      "(\<exists>msg. out = Rejected msg \<and> m' = m)
       \<or> (\<exists>x new. out = Raised x \<and> disk m' = disk m \<and> trace m' = trace m @ new \<and> ran_ok n (Some x) new)
       \<or> (\<exists>new. out = Succeeded \<and> trace m' = trace m @ new @ [Saved] \<and> clean new)"
    and start: "trace m = []"
    and failed: "trace m' = pre @ Ran cmd True False # post"
  shows "post = [] \<and> disk m' = disk m \<and> out = Raised (CommandFailed cmd) \<and> Saved \<notin> set (trace m')"
proof -
  from outcomes consider
      (rejected) "m' = m"
    | (raised) x new where "out = Raised x" "disk m' = disk m" "trace m' = trace m @ new" "ran_ok n (Some x) new"
    | (succeeded) new where "trace m' = trace m @ new @ [Saved]" "clean new"
    by blast
  then show ?thesis
  proof cases
    case rejected
    with start failed show ?thesis by simp
  next
    case succeeded
    with start failed have eq: "new @ [Saved] = pre @ Ran cmd True False # post" by simp
    from failed_only_last [OF succeeded(2) eq] show ?thesis by simp
  next
    case raised
    from raised(3) start failed have new: "new = pre @ Ran cmd True False # post" by simp
    from raised(4) consider (other) "clean new"
      | (cmd) pre' c where "new = pre' @ [Ran c True False]" "clean pre'" "x = CommandFailed c"
      by (auto simp: ran_ok_def)
    then show ?thesis
    proof cases
      case other
      with new clean_not_failed show ?thesis by blast
    next
      case cmd
      from cmd(1) new have eq: "pre' @ [Ran c True False] = pre @ Ran cmd True False # post" by simp
      from failed_only_last [OF cmd(2) eq] have l: "post = []" "c = cmd" "pre' = pre" by simp_all
      from cmd(2) l(3) have "Saved \<notin> set pre" by (simp add: clean_not_Saved)
      with l raised(1,2) cmd(3) failed show ?thesis by simp
    qed
  qed
qed

lemma ip_network_10_0_0_0:
  "ip_network ''10.0.0.0/16'' = Inr \<lparr>network_address = 167772160, prefixlen = 16, version = 4, scope_id = []\<rparr>"
  by (simp add: ip_network_eval)

lemma hosts_10_0_0_0:
  "py_index (hosts \<lparr>network_address = 167772160, prefixlen = 16, version = 4, scope_id = []\<rparr>) 0 = Inr 167772161"
  by (simp add: hosts_eval del: upt_rec_numeral)

lemma str_host_10_0_0_1:
  "str_host \<lparr>network_address = 167772160, prefixlen = 16, version = 4, scope_id = []\<rparr> 167772161 = ''10.0.0.1''"
  by (simp add: str_host_eval)

lemma str_nat_16: "str_nat 16 = ''16''"
  by (simp add: str_nat.simps)

lemma create_vpc_evaluated:
  "create_vpc (fail_on ''ip addr add 10.0.0.1/16 dev br-app1'') ''app1'' ''10.0.0.0/16'' ''eth0'' (VPCManager []) =
     (Raised (CommandFailed ''ip addr add 10.0.0.1/16 dev br-app1''),
      \<lparr>state = [], disk = [],
       trace = [Ran ''ip link add br-app1 type bridge'' True True,
                Ran ''ip link set br-app1 up'' True True,
                Ran ''echo 1 > /proc/sys/net/bridge/bridge-nf-call-iptables'' False True,
                Ran ''iptables -A FORWARD -i br-app1 -o br-app1 -j ACCEPT'' False True,
                Ran ''iptables -A FORWARD -i br-app1 ! -o br-app1 -j DROP'' False True,
                Ran ''ip addr add 10.0.0.1/16 dev br-app1'' True False]\<rparr>)"
  by (simp add: create_vpc_def run_cmd_eq VPCManager_def fail_on_def
      ip_network_10_0_0_0 hosts_10_0_0_0 str_host_10_0_0_1 str_nat_16 Let_def)

text \<open>
  C3: in CreateVPC and AddSubnet, started on a freshly loaded manager, a command run with
  \<^verbatim>\<open>check\<close> that fails is the last event of the operation: no further command is
  run and the file is not written; the file holds what it held before, and the operation
  ends with the exception naming that command.
\<close>

theorem failed_directive_aborts_and_keeps_store:
  assumes "run = create_vpc eff vpc_name cidr internet_interface
           \<or> run = add_subnet eff vpc_name subnet_name cidr subnet_type"
    and "run (VPCManager d) = (out, m')"
    and "trace m' = pre @ Ran cmd True False # post"
  shows "post = [] \<and> disk m' = d \<and> out = Raised (CommandFailed cmd) \<and> Saved \<notin> set (trace m')"
proof -
  have "\<exists>n.
       (\<exists>msg. out = Rejected msg \<and> m' = VPCManager d)
       \<or> (\<exists>x new. out = Raised x \<and> disk m' = disk (VPCManager d)
             \<and> trace m' = trace (VPCManager d) @ new \<and> ran_ok n (Some x) new)
       \<or> (\<exists>new. out = Succeeded \<and> trace m' = trace (VPCManager d) @ new @ [Saved] \<and> clean new)"
    using assms(1)
  proof
    assume "run = create_vpc eff vpc_name cidr internet_interface"
    with assms(2) have "create_vpc eff vpc_name cidr internet_interface (VPCManager d) = (out, m')"
      by simp
    from create_vpc_outcomes [OF this] show ?thesis by (rule exI)
  next
    assume "run = add_subnet eff vpc_name subnet_name cidr subnet_type"
    with assms(2) have "add_subnet eff vpc_name subnet_name cidr subnet_type (VPCManager d) = (out, m')"
      by simp
    from add_subnet_outcomes [OF this] show ?thesis by (rule exI)
  qed
  then obtain n where
      "(\<exists>msg. out = Rejected msg \<and> m' = VPCManager d)
       \<or> (\<exists>x new. out = Raised x \<and> disk m' = disk (VPCManager d)
             \<and> trace m' = trace (VPCManager d) @ new \<and> ran_ok n (Some x) new)
       \<or> (\<exists>new. out = Succeeded \<and> trace m' = trace (VPCManager d) @ new @ [Saved] \<and> clean new)"
    by blast
  from failed_abort_is_last [OF this _ assms(3)] show ?thesis
    by (simp add: VPCManager_simps)
qed

theorem failed_directive_aborts_and_keeps_store_witness:
  "trace (snd (create_vpc (fail_on ''ip addr add 10.0.0.1/16 dev br-app1'') ''app1'' ''10.0.0.0/16'' ''eth0''
                 (VPCManager [])))
     = [Ran ''ip link add br-app1 type bridge'' True True,
        Ran ''ip link set br-app1 up'' True True,
        Ran ''echo 1 > /proc/sys/net/bridge/bridge-nf-call-iptables'' False True,
        Ran ''iptables -A FORWARD -i br-app1 -o br-app1 -j ACCEPT'' False True,
        Ran ''iptables -A FORWARD -i br-app1 ! -o br-app1 -j DROP'' False True]
       @ Ran ''ip addr add 10.0.0.1/16 dev br-app1'' True False # []
   \<and> disk (snd (create_vpc (fail_on ''ip addr add 10.0.0.1/16 dev br-app1'') ''app1'' ''10.0.0.0/16'' ''eth0''
                 (VPCManager []))) = []
   \<and> fst (create_vpc (fail_on ''ip addr add 10.0.0.1/16 dev br-app1'') ''app1'' ''10.0.0.0/16'' ''eth0''
                 (VPCManager [])) = Raised (CommandFailed ''ip addr add 10.0.0.1/16 dev br-app1'')"
proof -
  let ?run = "create_vpc (fail_on ''ip addr add 10.0.0.1/16 dev br-app1'') ''app1'' ''10.0.0.0/16'' ''eth0''"
  have r: "?run (VPCManager []) = (fst (?run (VPCManager [])), snd (?run (VPCManager [])))"
    by simp
  have t: "trace (snd (?run (VPCManager [])))
     = [Ran ''ip link add br-app1 type bridge'' True True,
        Ran ''ip link set br-app1 up'' True True,
        Ran ''echo 1 > /proc/sys/net/bridge/bridge-nf-call-iptables'' False True,
        Ran ''iptables -A FORWARD -i br-app1 -o br-app1 -j ACCEPT'' False True,
        Ran ''iptables -A FORWARD -i br-app1 ! -o br-app1 -j DROP'' False True]
       @ Ran ''ip addr add 10.0.0.1/16 dev br-app1'' True False # []"
    by (simp add: create_vpc_evaluated)
  from failed_directive_aborts_and_keeps_store [OF disjI1 [OF refl] r t] t show ?thesis
    by blast
qed


section \<open>The addressing lines\<close>




section \<open>A block that cannot be used\<close>

lemma prefix_from_prefix_string_le:
  assumes "prefix_from_prefix_string max_len s = Inr n"
  shows "n \<le> max_len"
  using assms by (auto simp: prefix_from_prefix_string_def split: if_splits)

lemma prefix_from_ip_int_le:
  assumes "prefix_from_ip_int max_len ip_int = Inr n"
  shows "n \<le> max_len"
  using assms by (auto simp: prefix_from_ip_int_def Let_def split: if_splits)

lemma v4_make_netmask_le:
  assumes "v4_make_netmask arg = Inr n"
  shows "n \<le> 32"
  using assms
  by (auto simp: v4_make_netmask_def v4_prefix_from_ip_string_def split: sum.splits
      dest: prefix_from_prefix_string_le prefix_from_ip_int_le)

lemma IPv4Network_shape:
  assumes "IPv4Network address = Inr net"
  shows "version net = 4 \<and> prefixlen net \<le> 32"
  using assms
  by (auto simp: IPv4Network_def split: sum.splits prod.splits option.splits if_splits
      dest: v4_make_netmask_le)

lemma IPv6Network_shape:
  assumes "IPv6Network address = Inr net"
  shows "version net = 6 \<and> prefixlen net \<le> 128"
  using assms
  by (auto simp: IPv6Network_def split: sum.splits prod.splits option.splits if_splits
      dest: prefix_from_prefix_string_le)

lemma ip_network_shape:
  assumes "ip_network address = Inr net"
  shows "prefixlen net \<le> max_prefixlen net"
  using assms
  by (auto simp: ip_network_def max_prefixlen_def split: sum.splits if_splits
      dest: IPv4Network_shape IPv6Network_shape)

text \<open>A network has a usable host, and a single one exactly when no bit is left for the host.\<close>

lemma hosts_count:
  assumes le: "prefixlen net \<le> max_prefixlen net"
  shows "hosts net \<noteq> [] \<and> (length (hosts net) < 2 \<longleftrightarrow> prefixlen net = max_prefixlen net)"
proof -
  have max: "2 \<le> max_prefixlen net" by (simp add: max_prefixlen_def)
  consider (no_bit) "prefixlen net = max_prefixlen net"
    | (one_bit) "prefixlen net = max_prefixlen net - 1"
    | (more) "prefixlen net + 2 \<le> max_prefixlen net"
    using le by linarith
  then show ?thesis
  proof cases
    case no_bit
    from max have "max_prefixlen net \<noteq> max_prefixlen net - 1" by linarith
    with no_bit have "hosts net = [network_address net]" by (simp add: hosts_def)
    with no_bit show ?thesis by simp
  next
    case one_bit
    with max have "max_prefixlen net - prefixlen net = 1" by linarith
    then have "broadcast_address net = network_address net + 1"
      by (simp add: broadcast_address_def)
    with one_bit have "hosts net = [network_address net ..< network_address net + 2]"
      by (simp add: hosts_def)
    moreover from one_bit max have "prefixlen net \<noteq> max_prefixlen net" by linarith
    ultimately show ?thesis by (simp del: upt_Suc)
  next
    case more
    define P :: nat where "P = 2 ^ (max_prefixlen net - prefixlen net)"
    define k where "k = max_prefixlen net - prefixlen net - 2"
    with more have k: "max_prefixlen net - prefixlen net = k + 2" by linarith
    have "P = 4 * 2 ^ k" by (simp add: P_def k)
    then have P: "4 \<le> P" by simp
    have b: "broadcast_address net = network_address net + P - 1"
      by (simp add: broadcast_address_def P_def)
    from more have ne: "prefixlen net \<noteq> max_prefixlen net - 1" "prefixlen net \<noteq> max_prefixlen net"
      by linarith+
    show ?thesis
    proof (cases "version net = 6")
      case True
      with ne b have "hosts net = [network_address net + 1 ..< network_address net + P - 1 + 1]"
        by (simp add: hosts_def)
      with ne(2) P show ?thesis by (simp del: upt_Suc)
    next
      case False
      with ne b have "hosts net = [network_address net + 1 ..< network_address net + P - 1]"
        by (simp add: hosts_def)
      moreover from P have "network_address net + 1 < network_address net + P - 1"
        and "\<not> network_address net + P - 1 - (network_address net + 1) < 2"
        by linarith+
      ultimately show ?thesis using ne(2) by (simp del: upt_Suc)
    qed
  qed
qed

lemma create_vpc_malformed:
  assumes pre: "map_of d vpc_name = None"
    and bad: "ip_network cidr = Inl e"
    and run: "create_vpc eff vpc_name cidr internet_interface (VPCManager d) = (out, m')"
  shows "disk m' = d \<and> Saved \<notin> set (trace m') \<and> length (trace m') \<le> 5
       \<and> (out = Raised ValueError \<and> length (trace m') = 5
          \<or> (\<exists>c. out = Raised (CommandFailed c)))"
proof -
  from pre have pre': "map_of (state (VPCManager d)) vpc_name = None" by (simp add: VPCManager_simps)
  note unf = create_vpc_unfold [OF pre', of eff cidr internet_interface]
  let ?b1 = "block
          [run_cmd eff (''ip link add '' @ (''br-'' @ vpc_name) @ '' type bridge'') True True,
           run_cmd eff (''ip link set '' @ (''br-'' @ vpc_name) @ '' up'') True True,
           run_cmd eff ''echo 1 > /proc/sys/net/bridge/bridge-nf-call-iptables'' False True,
           run_cmd eff (''iptables -A FORWARD -i '' @ (''br-'' @ vpc_name) @ '' -o '' @ (''br-'' @ vpc_name) @ '' -j ACCEPT'') False True,
           run_cmd eff (''iptables -A FORWARD -i '' @ (''br-'' @ vpc_name) @ '' ! -o '' @ (''br-'' @ vpc_name) @ '' -j DROP'') False True]"
  obtain r1 m1 where s1: "?b1 (VPCManager d) = (r1, m1)" by fastforce
  note d1 = directive_stmtD [OF five_cmds_directive s1]
  from d1(3) obtain new1 where new1: "trace m1 = new1" "ran_ok 5 r1 new1"
    by (auto simp: VPCManager_simps)
  from d1(2) have disk1: "disk m1 = d" by (simp add: VPCManager_simps)
  show ?thesis
  proof (cases r1)
    case (Some x)
    with run unf s1 have out: "out = Raised x" "m' = m1" by simp_all
    from five_cmds_raise [OF s1 [unfolded Some]] obtain c where c: "x = CommandFailed c" by blast
    with new1(2) Some obtain pre0 where p: "new1 = pre0 @ [Ran c True False]" "clean pre0" "length new1 \<le> 5"
      by (auto simp: ran_ok_def)
    from p(2) have "Saved \<notin> set pre0" by (rule clean_not_Saved)
    with p(1) have "Saved \<notin> set new1" by simp
    with out c p(3) new1(1) disk1 show ?thesis by simp
  next
    case None
    with new1(2) have cl: "length new1 = 5" "clean new1" by (simp_all add: ran_ok_None)
    from cl(2) have ns: "Saved \<notin> set new1" by (rule clean_not_Saved)
    from ip_network_error [OF bad] bad run unf s1 None
    have "out = Raised ValueError \<and> m' = m1" by simp
    with cl ns new1(1) disk1 show ?thesis by simp
  qed
qed

lemma add_subnet_unusable_block:
  assumes pre: "map_of d vpc_name = Some vpc"
    and bad: "(\<exists>e. ip_network cidr = Inl e) \<or> (\<exists>net. ip_network cidr = Inr net \<and> length (hosts net) < 2)"
    and run: "add_subnet eff vpc_name subnet_name cidr subnet_type (VPCManager d) = (out, m')"
  shows "disk m' = d \<and> Saved \<notin> set (trace m') \<and> length (trace m') \<le> 5
       \<and> (out = Raised (case ip_network cidr of Inl e \<Rightarrow> ValueError | Inr net \<Rightarrow> IndexError) \<and> length (trace m') = 5
          \<or> (\<exists>c. out = Raised (CommandFailed c)))"
proof -
  from pre have pre': "map_of (state (VPCManager d)) vpc_name = Some vpc" by (simp add: VPCManager_simps)
  note unf = add_subnet_unfold [OF pre', of eff subnet_name cidr subnet_type]
  let ?b1 = "block
           [run_cmd eff (''ip netns add '' @ ns_name vpc_name subnet_name) True True,
            run_cmd eff (''ip link add '' @ veth_host vpc_name subnet_name @ '' type veth peer name ''
                           @ veth_ns vpc_name subnet_name) True True,
            run_cmd eff (''ip link set '' @ veth_ns vpc_name subnet_name @ '' netns ''
                           @ ns_name vpc_name subnet_name) True True,
            run_cmd eff (''ip link set '' @ veth_host vpc_name subnet_name @ '' master '' @ vpc_bridge vpc) True True,
            run_cmd eff (''ip link set '' @ veth_host vpc_name subnet_name @ '' up'') True True]"
  obtain r1 m1 where s1: "?b1 (VPCManager d) = (r1, m1)" by fastforce
  note d1 = directive_stmtD [OF five_cmds_directive s1]
  from d1(3) obtain new1 where new1: "trace m1 = new1" "ran_ok 5 r1 new1"
    by (auto simp: VPCManager_simps)
  from d1(2) have disk1: "disk m1 = d" by (simp add: VPCManager_simps)
  show ?thesis
  proof (cases r1)
    case (Some x)
    with run unf s1 have out: "out = Raised x" "m' = m1" by simp_all
    from five_cmds_raise [OF s1 [unfolded Some]] obtain c where c: "x = CommandFailed c" by blast
    with new1(2) Some obtain pre0 where p: "new1 = pre0 @ [Ran c True False]" "clean pre0" "length new1 \<le> 5"
      by (auto simp: ran_ok_def)
    from p(2) have "Saved \<notin> set pre0" by (rule clean_not_Saved)
    with p(1) have "Saved \<notin> set new1" by simp
    with out c p(3) new1(1) disk1 show ?thesis by simp
  next
    case None
    with new1(2) have cl: "length new1 = 5" "clean new1" by (simp_all add: ran_ok_None)
    from cl(2) have ns: "Saved \<notin> set new1" by (rule clean_not_Saved)
    from bad have "out = Raised (case ip_network cidr of Inl e \<Rightarrow> ValueError | Inr net \<Rightarrow> IndexError) \<and> m' = m1"
    proof (elim disjE exE conjE)
      fix e assume e: "ip_network cidr = Inl e"
      with ip_network_error [OF e] run unf s1 None show ?thesis by simp
    next
      fix net assume n: "ip_network cidr = Inr net" "length (hosts net) < 2"
      show ?thesis
      proof (cases "py_index (hosts net) 0")
        case (Inl e)
        with py_index_error [OF Inl] n run unf s1 None show ?thesis by simp
      next
        case (Inr first_host)
        from n(2) have "py_index (hosts net) 1 = Inl IndexError" by (simp add: py_index_def)
        with Inr n run unf s1 None show ?thesis by simp
      qed
    qed
    with cl ns new1(1) disk1 show ?thesis by simp
  qed
qed

lemma ip_network_rejects:
  "ip_network ''bogus'' = Inl ValueError"
  "ip_network ''10.0.0.0/33'' = Inl ValueError"
  "ip_network ''not-a-cidr'' = Inl ValueError"
  by (simp_all add: ip_network_eval)

lemma ip_network_single_address:
  "ip_network ''10.0.2.0/32'' = Inr \<lparr>network_address = 167772672, prefixlen = 32, version = 4, scope_id = []\<rparr>"
  "length (hosts \<lparr>network_address = 167772672, prefixlen = 32, version = 4, scope_id = []\<rparr>) = 1"
  "py_index (hosts \<lparr>network_address = 167772672, prefixlen = 32, version = 4, scope_id = []\<rparr>) 0 = Inr 167772672"
  "py_index (hosts \<lparr>network_address = 167772672, prefixlen = 32, version = 4, scope_id = []\<rparr>) (Suc 0) = Inl IndexError"
  by (simp_all add: ip_network_eval hosts_eval)

lemma add_subnet_bogus:
  "add_subnet always_ok ''app1'' ''db'' ''bogus'' ''private'' (VPCManager app1_store) =
     (Raised ValueError,
      \<lparr>state = app1_store, disk = app1_store,
       trace = [Ran (''ip netns add app1-db'') True True,
                Ran (''ip link add '' @ veth_host ''app1'' ''db'' @ '' type veth peer name ''
                       @ veth_ns ''app1'' ''db'') True True,
                Ran (''ip link set '' @ veth_ns ''app1'' ''db'' @ '' netns app1-db'') True True,
                Ran (''ip link set '' @ veth_host ''app1'' ''db'' @ '' master br-app1'') True True,
                Ran (''ip link set '' @ veth_host ''app1'' ''db'' @ '' up'') True True]\<rparr>)"
  by (simp add: add_subnet_def run_cmd_eq VPCManager_def always_ok_def
      app1_store_def app1_vpc_def ns_name_def ip_network_rejects Let_def)

lemma add_subnet_single_address:
  "add_subnet always_ok ''app1'' ''db'' ''10.0.2.0/32'' ''private'' (VPCManager app1_store) =
     (Raised IndexError,
      \<lparr>state = app1_store, disk = app1_store,
       trace = [Ran (''ip netns add app1-db'') True True,
                Ran (''ip link add '' @ veth_host ''app1'' ''db'' @ '' type veth peer name ''
                       @ veth_ns ''app1'' ''db'') True True,
                Ran (''ip link set '' @ veth_ns ''app1'' ''db'' @ '' netns app1-db'') True True,
                Ran (''ip link set '' @ veth_host ''app1'' ''db'' @ '' master br-app1'') True True,
                Ran (''ip link set '' @ veth_host ''app1'' ''db'' @ '' up'') True True]\<rparr>)"
  by (simp add: add_subnet_def run_cmd_eq VPCManager_def always_ok_def
      app1_store_def app1_vpc_def ns_name_def ip_network_single_address Let_def)

lemma create_vpc_slash33:
  "create_vpc always_ok ''app2'' ''10.0.0.0/33'' ''eth0'' (VPCManager []) =
     (Raised ValueError,
      \<lparr>state = [], disk = [],
       trace = [Ran ''ip link add br-app2 type bridge'' True True,
                Ran ''ip link set br-app2 up'' True True,
                Ran ''echo 1 > /proc/sys/net/bridge/bridge-nf-call-iptables'' False True,
                Ran ''iptables -A FORWARD -i br-app2 -o br-app2 -j ACCEPT'' False True,
                Ran ''iptables -A FORWARD -i br-app2 ! -o br-app2 -j DROP'' False True]\<rparr>)"
  by (simp add: create_vpc_def run_cmd_eq VPCManager_def always_ok_def ip_network_rejects Let_def)

text \<open>
  C5 as stated fails: the block is parsed only after the first five commands of the
  operation have run, and what is raised is the library's own exception. With every command
  succeeding, CreateVPC on a malformed block has created the bridge and its rules before it
  ends with ValueError, and AddSubnet on a /32 block has created the namespace and the link
  before it ends with IndexError.
\<close>

theorem invalid_block_not_checked_first_counterexample:
  "fst (create_vpc always_ok ''app2'' ''not-a-cidr'' ''eth0'' (VPCManager [])) = Raised ValueError
   \<and> map event_cmd (trace (snd (create_vpc always_ok ''app2'' ''not-a-cidr'' ''eth0'' (VPCManager []))))
       = [''ip link add br-app2 type bridge'', ''ip link set br-app2 up'',
          ''echo 1 > /proc/sys/net/bridge/bridge-nf-call-iptables'',
          ''iptables -A FORWARD -i br-app2 -o br-app2 -j ACCEPT'',
          ''iptables -A FORWARD -i br-app2 ! -o br-app2 -j DROP'']
   \<and> fst (add_subnet always_ok ''app1'' ''db'' ''10.0.2.0/32'' ''private'' (VPCManager app1_store))
       = Raised IndexError
   \<and> length (trace (snd (add_subnet always_ok ''app1'' ''db'' ''10.0.2.0/32'' ''private''
                            (VPCManager app1_store)))) = 5"
  by (simp add: add_subnet_single_address)
     (simp add: create_vpc_def run_cmd_eq VPCManager_def always_ok_def ip_network_rejects Let_def)

text \<open>
  C5, amended: a block that the address library refuses (malformed, or with host bits set)
  makes CreateVPC and AddSubnet end with the library's uncaught ValueError, and a block
  with a single address, which has fewer than the two usable hosts AddSubnet takes, makes
  AddSubnet end with an uncaught IndexError. Either comes only after the first five commands
  of the operation, which run before the block is parsed, unless one of those five fails
  first; then its failure is raised. In all these cases the store is not written and no
  command beyond the first five is run. A block that the library accepts always has a usable
  host, so CreateVPC does not fail for want of hosts.
\<close>

theorem invalid_block_raises_after_five_commands:
  "(map_of d vpc_name = None \<and> ip_network cidr = Inl e
      \<and> create_vpc eff vpc_name cidr internet_interface (VPCManager d) = (out, m')
    \<longrightarrow> disk m' = d \<and> Saved \<notin> set (trace m') \<and> length (trace m') \<le> 5
       \<and> (out = Raised ValueError \<and> length (trace m') = 5
          \<or> (\<exists>c. out = Raised (CommandFailed c))))
   \<and> (map_of d vpc_name = Some vpc \<and> ip_network cidr = Inl e
      \<and> add_subnet eff vpc_name subnet_name cidr subnet_type (VPCManager d) = (out, m')
    \<longrightarrow> disk m' = d \<and> Saved \<notin> set (trace m') \<and> length (trace m') \<le> 5
       \<and> (out = Raised ValueError \<and> length (trace m') = 5
          \<or> (\<exists>c. out = Raised (CommandFailed c))))
   \<and> (map_of d vpc_name = Some vpc \<and> ip_network cidr = Inr net \<and> length (hosts net) < 2
      \<and> add_subnet eff vpc_name subnet_name cidr subnet_type (VPCManager d) = (out, m')
    \<longrightarrow> disk m' = d \<and> Saved \<notin> set (trace m') \<and> length (trace m') \<le> 5
       \<and> (out = Raised IndexError \<and> length (trace m') = 5
          \<or> (\<exists>c. out = Raised (CommandFailed c))))
   \<and> (ip_network cidr = Inr net
    \<longrightarrow> hosts net \<noteq> [] \<and> (length (hosts net) < 2 \<longleftrightarrow> prefixlen net = max_prefixlen net))"
proof -
  have create: "map_of d vpc_name = None \<and> ip_network cidr = Inl e
      \<and> create_vpc eff vpc_name cidr internet_interface (VPCManager d) = (out, m')
    \<longrightarrow> disk m' = d \<and> Saved \<notin> set (trace m') \<and> length (trace m') \<le> 5
       \<and> (out = Raised ValueError \<and> length (trace m') = 5
          \<or> (\<exists>c. out = Raised (CommandFailed c)))"
    using create_vpc_malformed by blast
  have add_malformed: "map_of d vpc_name = Some vpc \<and> ip_network cidr = Inl e
      \<and> add_subnet eff vpc_name subnet_name cidr subnet_type (VPCManager d) = (out, m')
    \<longrightarrow> disk m' = d \<and> Saved \<notin> set (trace m') \<and> length (trace m') \<le> 5
       \<and> (out = Raised ValueError \<and> length (trace m') = 5
          \<or> (\<exists>c. out = Raised (CommandFailed c)))"
  proof
    assume a: "map_of d vpc_name = Some vpc \<and> ip_network cidr = Inl e
      \<and> add_subnet eff vpc_name subnet_name cidr subnet_type (VPCManager d) = (out, m')"
    then have bad: "(\<exists>e. ip_network cidr = Inl e) \<or> (\<exists>net. ip_network cidr = Inr net \<and> length (hosts net) < 2)"
      and pre: "map_of d vpc_name = Some vpc"
      and run: "add_subnet eff vpc_name subnet_name cidr subnet_type (VPCManager d) = (out, m')"
      by blast+
    from add_subnet_unusable_block [OF pre bad run] a show "disk m' = d \<and> Saved \<notin> set (trace m') \<and> length (trace m') \<le> 5
       \<and> (out = Raised ValueError \<and> length (trace m') = 5
          \<or> (\<exists>c. out = Raised (CommandFailed c)))"
      by simp
  qed
  have add_single: "map_of d vpc_name = Some vpc \<and> ip_network cidr = Inr net \<and> length (hosts net) < 2
      \<and> add_subnet eff vpc_name subnet_name cidr subnet_type (VPCManager d) = (out, m')
    \<longrightarrow> disk m' = d \<and> Saved \<notin> set (trace m') \<and> length (trace m') \<le> 5
       \<and> (out = Raised IndexError \<and> length (trace m') = 5
          \<or> (\<exists>c. out = Raised (CommandFailed c)))"
  proof
    assume a: "map_of d vpc_name = Some vpc \<and> ip_network cidr = Inr net \<and> length (hosts net) < 2
      \<and> add_subnet eff vpc_name subnet_name cidr subnet_type (VPCManager d) = (out, m')"
    then have bad: "(\<exists>e. ip_network cidr = Inl e) \<or> (\<exists>net. ip_network cidr = Inr net \<and> length (hosts net) < 2)"
      and pre: "map_of d vpc_name = Some vpc"
      and run: "add_subnet eff vpc_name subnet_name cidr subnet_type (VPCManager d) = (out, m')"
      by blast+
    from add_subnet_unusable_block [OF pre bad run] a show "disk m' = d \<and> Saved \<notin> set (trace m') \<and> length (trace m') \<le> 5
       \<and> (out = Raised IndexError \<and> length (trace m') = 5
          \<or> (\<exists>c. out = Raised (CommandFailed c)))"
      by simp
  qed
  have accepted: "ip_network cidr = Inr net
    \<longrightarrow> hosts net \<noteq> [] \<and> (length (hosts net) < 2 \<longleftrightarrow> prefixlen net = max_prefixlen net)"
  proof
    assume "ip_network cidr = Inr net"
    then have "prefixlen net \<le> max_prefixlen net" by (rule ip_network_shape)
    then show "hosts net \<noteq> [] \<and> (length (hosts net) < 2 \<longleftrightarrow> prefixlen net = max_prefixlen net)"
      by (rule hosts_count)
  qed
  show ?thesis by (intro conjI create add_malformed add_single accepted)
qed

theorem invalid_block_raises_after_five_commands_witness:
  "map_of [] ''app2'' = (None :: vpc option) \<and> ip_network ''10.0.0.0/33'' = Inl ValueError
   \<and> disk (snd (create_vpc always_ok ''app2'' ''10.0.0.0/33'' ''eth0'' (VPCManager []))) = []
   \<and> length (trace (snd (create_vpc always_ok ''app2'' ''10.0.0.0/33'' ''eth0'' (VPCManager [])))) = 5
   \<and> fst (create_vpc always_ok ''app2'' ''10.0.0.0/33'' ''eth0'' (VPCManager [])) = Raised ValueError
   \<and> map_of app1_store ''app1'' = Some app1_vpc \<and> ip_network ''bogus'' = Inl ValueError
   \<and> disk (snd (add_subnet always_ok ''app1'' ''db'' ''bogus'' ''private'' (VPCManager app1_store))) = app1_store
   \<and> length (trace (snd (add_subnet always_ok ''app1'' ''db'' ''bogus'' ''private'' (VPCManager app1_store)))) = 5
   \<and> fst (add_subnet always_ok ''app1'' ''db'' ''bogus'' ''private'' (VPCManager app1_store)) = Raised ValueError
   \<and> ip_network ''10.0.2.0/32'' = Inr \<lparr>network_address = 167772672, prefixlen = 32, version = 4, scope_id = []\<rparr>
   \<and> length (hosts \<lparr>network_address = 167772672, prefixlen = 32, version = 4, scope_id = []\<rparr>) < 2
   \<and> hosts \<lparr>network_address = 167772672, prefixlen = 32, version = 4, scope_id = []\<rparr> \<noteq> []
   \<and> disk (snd (add_subnet always_ok ''app1'' ''db'' ''10.0.2.0/32'' ''private'' (VPCManager app1_store)))
       = app1_store
   \<and> length (trace (snd (add_subnet always_ok ''app1'' ''db'' ''10.0.2.0/32'' ''private''
                            (VPCManager app1_store)))) = 5
   \<and> fst (add_subnet always_ok ''app1'' ''db'' ''10.0.2.0/32'' ''private'' (VPCManager app1_store))
       = Raised IndexError"
proof -
  let ?c = "create_vpc always_ok ''app2'' ''10.0.0.0/33'' ''eth0'' (VPCManager [])"
  let ?a = "add_subnet always_ok ''app1'' ''db'' ''bogus'' ''private'' (VPCManager app1_store)"
  let ?s = "add_subnet always_ok ''app1'' ''db'' ''10.0.2.0/32'' ''private'' (VPCManager app1_store)"
  let ?net = "\<lparr>network_address = 167772672, prefixlen = 32, version = 4, scope_id = []\<rparr>"
  have c: "?c = (fst ?c, snd ?c)" and a: "?a = (fst ?a, snd ?a)" and s: "?s = (fst ?s, snd ?s)"
    by simp_all
  have p1: "map_of [] ''app2'' = (None :: vpc option)" by simp
  have p2: "map_of app1_store ''app1'' = Some app1_vpc" by (simp add: app1_store_def)
  have one: "length (hosts ?net) < 2" by (simp add: ip_network_single_address)
  have nc: "\<not> (\<exists>cmd. fst ?c = Raised (CommandFailed cmd))" by (simp add: create_vpc_slash33)
  have na: "\<not> (\<exists>cmd. fst ?a = Raised (CommandFailed cmd))" by (simp add: add_subnet_bogus)
  have ns: "\<not> (\<exists>cmd. fst ?s = Raised (CommandFailed cmd))" by (simp add: add_subnet_single_address)
  from invalid_block_raises_after_five_commands
         [where d = "[]" and vpc_name = "''app2''" and cidr = "''10.0.0.0/33''" and eff = always_ok
            and internet_interface = "''eth0''" and out = "fst ?c" and m' = "snd ?c" and e = ValueError]
       p1 ip_network_rejects(2) c nc
  have r1: "disk (snd ?c) = [] \<and> length (trace (snd ?c)) = 5 \<and> fst ?c = Raised ValueError"
    by blast
  from invalid_block_raises_after_five_commands
         [where d = app1_store and vpc_name = "''app1''" and cidr = "''bogus''" and eff = always_ok
            and vpc = app1_vpc and subnet_name = "''db''" and subnet_type = "''private''"
            and out = "fst ?a" and m' = "snd ?a" and e = ValueError]
       p2 ip_network_rejects(1) a na
  have r2: "disk (snd ?a) = app1_store \<and> length (trace (snd ?a)) = 5 \<and> fst ?a = Raised ValueError"
    by blast
  from invalid_block_raises_after_five_commands
         [where d = app1_store and vpc_name = "''app1''" and cidr = "''10.0.2.0/32''" and eff = always_ok
            and vpc = app1_vpc and subnet_name = "''db''" and subnet_type = "''private''"
            and out = "fst ?s" and m' = "snd ?s" and net = ?net]
       p2 ip_network_single_address(1) one s ns
  have r3: "disk (snd ?s) = app1_store \<and> length (trace (snd ?s)) = 5 \<and> fst ?s = Raised IndexError
            \<and> hosts ?net \<noteq> []"
    by blast
  from r1 r2 r3 p1 p2 one ip_network_rejects(1,2) ip_network_single_address(1)
  show ?thesis by blast
qed


section \<open>Precondition checks\<close>

text \<open>
  C6: an operation whose precondition fails reports the error and returns the manager as
  it was: no command has run and neither the state nor the file has changed. This holds for
  CreateVPC on a name in the store, for AddSubnet, ApplyFirewall, DeleteVPC and Peer (either
  name) on a VPC not in the store, and for ApplyFirewall on a subnet not in the VPC.
\<close>

theorem failed_precondition_has_no_effect:
  "(map_of d a \<noteq> None \<longrightarrow>
      create_vpc eff a cidr internet_interface (VPCManager d)
        = (Rejected (''VPC '' @ a @ '' already exists''), VPCManager d))
   \<and> (map_of d b = None \<longrightarrow>
      add_subnet eff b subnet_name cidr subnet_type (VPCManager d)
        = (Rejected (''VPC '' @ b @ '' not found''), VPCManager d)
      \<and> apply_firewall eff load_policy b subnet_name policy_file (VPCManager d)
        = (Rejected (''VPC '' @ b @ '' not found''), VPCManager d)
      \<and> delete_vpc eff b (VPCManager d)
        = (Rejected (''VPC '' @ b @ '' not found''), VPCManager d)
      \<and> peer_vpcs eff b other (VPCManager d)
        = (Rejected ''One or both VPCs not found'', VPCManager d)
      \<and> peer_vpcs eff other b (VPCManager d)
        = (Rejected ''One or both VPCs not found'', VPCManager d))
   \<and> (map_of d a = Some vpc \<and> map_of (vpc_subnets vpc) subnet_name = None \<longrightarrow>
      apply_firewall eff load_policy a subnet_name policy_file (VPCManager d)
        = (Rejected (''Subnet '' @ subnet_name @ '' not found''), VPCManager d))"
  by (auto simp: create_vpc_def add_subnet_def apply_firewall_def delete_vpc_def peer_vpcs_def
      VPCManager_simps split: option.splits)

theorem failed_precondition_has_no_effect_witness:
  "map_of app1_store ''app1'' \<noteq> None
   \<and> create_vpc always_ok ''app1'' ''10.0.0.0/16'' ''eth0'' (VPCManager app1_store)
        = (Rejected ''VPC app1 already exists'', VPCManager app1_store)
   \<and> map_of app1_store ''app2'' = None
   \<and> add_subnet always_ok ''app2'' ''db'' ''10.0.0.0/16'' ''private'' (VPCManager app1_store)
        = (Rejected ''VPC app2 not found'', VPCManager app1_store)
   \<and> apply_firewall always_ok two_rule_policy ''app2'' ''db'' ''policy.json'' (VPCManager app1_store)
        = (Rejected ''VPC app2 not found'', VPCManager app1_store)
   \<and> delete_vpc always_ok ''app2'' (VPCManager app1_store)
        = (Rejected ''VPC app2 not found'', VPCManager app1_store)
   \<and> peer_vpcs always_ok ''app2'' ''app1'' (VPCManager app1_store)
        = (Rejected ''One or both VPCs not found'', VPCManager app1_store)
   \<and> peer_vpcs always_ok ''app1'' ''app2'' (VPCManager app1_store)
        = (Rejected ''One or both VPCs not found'', VPCManager app1_store)
   \<and> map_of app1_store ''app1'' = Some app1_vpc \<and> map_of (vpc_subnets app1_vpc) ''db'' = None
   \<and> apply_firewall always_ok two_rule_policy ''app1'' ''db'' ''policy.json'' (VPCManager app1_store)
        = (Rejected ''Subnet db not found'', VPCManager app1_store)"
proof -
  have p: "map_of app1_store ''app1'' = Some app1_vpc" "map_of app1_store ''app2'' = None"
      "map_of (vpc_subnets app1_vpc) ''db'' = None"
    by (simp_all add: app1_store_def app1_vpc_def)
  from failed_precondition_has_no_effect
         [where d = app1_store and a = "''app1''" and b = "''app2''" and eff = always_ok
            and cidr = "''10.0.0.0/16''" and internet_interface = "''eth0''"
            and subnet_name = "''db''" and subnet_type = "''private''"
            and load_policy = two_rule_policy and policy_file = "''policy.json''"
            and other = "''app1''" and vpc = app1_vpc] p
  show ?thesis by simp
qed

section \<open>ApplyFirewall\<close>

lemma block_checked:
  assumes "block (map (\<lambda>c. run_cmd eff c True capture) cs) m = (r, m')"
  shows "state m' = state m \<and> disk m' = disk m \<and>
     (r = None \<and> trace m' = trace m @ map (\<lambda>c. Ran c True True) cs
      \<or> (\<exists>k<length cs. r = Some (CommandFailed (cs ! k))
            \<and> \<not> eff (trace m @ map (\<lambda>c. Ran c True True) (take k cs)) (cs ! k)
            \<and> trace m' = trace m @ map (\<lambda>c. Ran c True True) (take k cs) @ [Ran (cs ! k) True False]))"
  using assms
proof (induction cs arbitrary: m)
  case Nil
  then show ?case by simp
next
  case (Cons c cs)
  show ?case
  proof (cases "eff (trace m) c")
    case False
    then have "run_cmd eff c True capture m = (Some (CommandFailed c), m\<lparr>trace := trace m @ [Ran c True False]\<rparr>)"
      by (simp add: run_cmd_eq)
    with Cons.prems have "r = Some (CommandFailed c)" "m' = m\<lparr>trace := trace m @ [Ran c True False]\<rparr>"
      by simp_all
    with False have "state m' = state m \<and> disk m' = disk m \<and>
         (0 < length (c # cs) \<and> r = Some (CommandFailed ((c # cs) ! 0))
            \<and> \<not> eff (trace m @ map (\<lambda>c. Ran c True True) (take 0 (c # cs))) ((c # cs) ! 0)
            \<and> trace m' = trace m @ map (\<lambda>c. Ran c True True) (take 0 (c # cs)) @ [Ran ((c # cs) ! 0) True False])"
      by simp
    then show ?thesis by blast
  next
    case True
    let ?m1 = "m\<lparr>trace := trace m @ [Ran c True True]\<rparr>"
    from True have "run_cmd eff c True capture m = (None, ?m1)"
      by (simp add: run_cmd_eq)
    with Cons.prems have rest: "block (map (\<lambda>c. run_cmd eff c True capture) cs) ?m1 = (r, m')"
      by simp
    from Cons.IH [OF rest] have sd: "state m' = state m" "disk m' = disk m"
      and alt: "r = None \<and> trace m' = trace ?m1 @ map (\<lambda>c. Ran c True True) cs
         \<or> (\<exists>k<length cs. r = Some (CommandFailed (cs ! k))
            \<and> \<not> eff (trace ?m1 @ map (\<lambda>c. Ran c True True) (take k cs)) (cs ! k)
            \<and> trace m' = trace ?m1 @ map (\<lambda>c. Ran c True True) (take k cs) @ [Ran (cs ! k) True False])"
      by simp_all
    from alt show ?thesis
    proof
      assume "r = None \<and> trace m' = trace ?m1 @ map (\<lambda>c. Ran c True True) cs"
      with sd show ?thesis by simp
    next
      assume "\<exists>k<length cs. r = Some (CommandFailed (cs ! k))
            \<and> \<not> eff (trace ?m1 @ map (\<lambda>c. Ran c True True) (take k cs)) (cs ! k)
            \<and> trace m' = trace ?m1 @ map (\<lambda>c. Ran c True True) (take k cs) @ [Ran (cs ! k) True False]"
      then obtain k where k: "k < length cs" "r = Some (CommandFailed (cs ! k))"
          "\<not> eff (trace ?m1 @ map (\<lambda>c. Ran c True True) (take k cs)) (cs ! k)"
          "trace m' = trace ?m1 @ map (\<lambda>c. Ran c True True) (take k cs) @ [Ran (cs ! k) True False]"
        by blast
      then have "Suc k < length (c # cs) \<and> r = Some (CommandFailed ((c # cs) ! Suc k))
            \<and> \<not> eff (trace m @ map (\<lambda>c. Ran c True True) (take (Suc k) (c # cs))) ((c # cs) ! Suc k)
            \<and> trace m' = trace m @ map (\<lambda>c. Ran c True True) (take (Suc k) (c # cs))
                            @ [Ran ((c # cs) ! Suc k) True False]"
        by simp
      with sd show ?thesis by blast
    qed
  qed
qed

lemma apply_firewall_unfold:
  assumes "map_of (state m) vpc_name = Some vpc" and "map_of (vpc_subnets vpc) subnet_name = Some subnet"
    and "load_policy policy_file = Inr policy" and "map_of policy ''ingress'' = Some rules"
  shows "apply_firewall eff load_policy vpc_name subnet_name policy_file m =
     (case block (map (\<lambda>c. run_cmd eff c True True) (map (firewall_cmd (sn_namespace subnet)) rules)) m
      of (Some e, m1) \<Rightarrow> (Raised e, m1) | (None, m1) \<Rightarrow> (Succeeded, m1))"
  using assms by (simp add: apply_firewall_def comp_def)

lemma apply_firewall_fails_first:
  "apply_firewall always_fail two_rule_policy ''app1'' ''web'' ''policy.json'' (VPCManager app1_store) =
     (Raised (CommandFailed ''ip netns exec app1-web iptables -A INPUT -p tcp --dport 80 -j ACCEPT''),
      \<lparr>state = app1_store, disk = app1_store,
       trace = [Ran ''ip netns exec app1-web iptables -A INPUT -p tcp --dport 80 -j ACCEPT'' True False]\<rparr>)"
  by (simp add: apply_firewall_def run_cmd_eq VPCManager_def always_fail_def two_rule_policy_def
      two_rules_def app1_store_def app1_vpc_def web_subnet_def firewall_cmd_def upper_def
      str_int_def str_nat.simps)

lemma apply_firewall_two_rules:
  "apply_firewall always_ok two_rule_policy ''app1'' ''web'' ''policy.json'' (VPCManager app1_store) =
     (Succeeded,
      \<lparr>state = app1_store, disk = app1_store,
       trace = [Ran ''ip netns exec app1-web iptables -A INPUT -p tcp --dport 80 -j ACCEPT'' True True,
                Ran ''ip netns exec app1-web iptables -A INPUT -p tcp --dport 22 -j DROP'' True True]\<rparr>)"
  by (simp add: apply_firewall_def run_cmd_eq VPCManager_def always_ok_def two_rule_policy_def
      two_rules_def app1_store_def app1_vpc_def web_subnet_def firewall_cmd_def upper_def
      str_int_def str_nat.simps)

text \<open>
  C8 as stated fails: each packet-filter command is run with \<^verbatim>\<open>check\<close>, so a command
  that fails ends the operation and the rules after it produce no command. With a policy of
  two rules and a first command that fails, one command is run, not two.
\<close>

theorem apply_firewall_stops_at_failure_counterexample:
  "length two_rules = 2
   \<and> trace (snd (apply_firewall always_fail two_rule_policy ''app1'' ''web'' ''policy.json''
                    (VPCManager app1_store)))
       = [Ran ''ip netns exec app1-web iptables -A INPUT -p tcp --dport 80 -j ACCEPT'' True False]
   \<and> fst (apply_firewall always_fail two_rule_policy ''app1'' ''web'' ''policy.json''
             (VPCManager app1_store))
       = Raised (CommandFailed ''ip netns exec app1-web iptables -A INPUT -p tcp --dport 80 -j ACCEPT'')"
  by (simp add: apply_firewall_fails_first two_rules_def)

text \<open>
  C8, amended: for an existing VPC and subnet and a policy whose ingress list has n rules,
  ApplyFirewall runs the packet-filter commands of the rules in list order inside the subnet's
  namespace, one per rule, each appending to the INPUT chain an ACCEPT rule when the rule's
  action, upper-cased, is ALLOW and a DROP rule otherwise, for the rule's protocol and port.
  The commands are run with \<^verbatim>\<open>check\<close>: when none fails exactly n are run, in order, and
  the operation succeeds; otherwise it stops at the first one that fails and raises its
  failure. No other command is run (nothing is cleared) and the store is not changed.
\<close>

theorem apply_firewall_runs_rules_in_order:
  assumes "map_of d vpc_name = Some vpc" and "map_of (vpc_subnets vpc) subnet_name = Some subnet"
    and "load_policy policy_file = Inr policy" and "map_of policy ''ingress'' = Some rules"
    and "apply_firewall eff load_policy vpc_name subnet_name policy_file (VPCManager d) = (out, m')"
    and "cmds = map (\<lambda>r. ''ip netns exec '' @ sn_namespace subnet @ '' iptables -A INPUT -p '' @ protocol r
                         @ '' --dport '' @ str_int (port r) @ '' -j ''
                         @ (if upper (action r) = ''ALLOW'' then ''ACCEPT'' else ''DROP'')) rules"
  shows "state m' = d \<and> disk m' = d \<and>
     (out = Succeeded \<and> trace m' = map (\<lambda>c. Ran c True True) cmds
      \<or> (\<exists>k<length rules. out = Raised (CommandFailed (cmds ! k))
            \<and> \<not> eff (map (\<lambda>c. Ran c True True) (take k cmds)) (cmds ! k)
            \<and> trace m' = map (\<lambda>c. Ran c True True) (take k cmds) @ [Ran (cmds ! k) True False]))"
proof -
  have cmds: "cmds = map (firewall_cmd (sn_namespace subnet)) rules"
    unfolding assms(6) by (rule map_cong) (simp_all add: firewall_cmd_def)
  from assms(1) have pre: "map_of (state (VPCManager d)) vpc_name = Some vpc"
    by (simp add: VPCManager_simps)
  note unf = apply_firewall_unfold [where load_policy = load_policy and policy_file = policy_file
      and eff = eff, OF pre assms(2,3,4), folded cmds]
  obtain r m1 where b: "block (map (\<lambda>c. run_cmd eff c True True) cmds) (VPCManager d) = (r, m1)"
    by fastforce
  from block_checked [OF b] have sd: "state m1 = d" "disk m1 = d"
    and alt: "r = None \<and> trace m1 = map (\<lambda>c. Ran c True True) cmds
      \<or> (\<exists>k<length cmds. r = Some (CommandFailed (cmds ! k))
            \<and> \<not> eff (map (\<lambda>c. Ran c True True) (take k cmds)) (cmds ! k)
            \<and> trace m1 = map (\<lambda>c. Ran c True True) (take k cmds) @ [Ran (cmds ! k) True False])"
    by (simp_all add: VPCManager_simps)
  have len: "length cmds = length rules" by (simp add: cmds)
  from alt show ?thesis
  proof
    assume a: "r = None \<and> trace m1 = map (\<lambda>c. Ran c True True) cmds"
    with assms(5) unf b have "out = Succeeded" "m' = m1" by simp_all
    with a sd show ?thesis by simp
  next
    assume "\<exists>k<length cmds. r = Some (CommandFailed (cmds ! k))
            \<and> \<not> eff (map (\<lambda>c. Ran c True True) (take k cmds)) (cmds ! k)
            \<and> trace m1 = map (\<lambda>c. Ran c True True) (take k cmds) @ [Ran (cmds ! k) True False]"
    then obtain k where k: "k < length rules" "r = Some (CommandFailed (cmds ! k))"
        "\<not> eff (map (\<lambda>c. Ran c True True) (take k cmds)) (cmds ! k)"
        "trace m1 = map (\<lambda>c. Ran c True True) (take k cmds) @ [Ran (cmds ! k) True False]"
      using len by auto
    from k(2) assms(5) unf b have "out = Raised (CommandFailed (cmds ! k))" "m' = m1" by simp_all
    with k sd show ?thesis by blast
  qed
qed

theorem apply_firewall_runs_rules_in_order_witness:
  "map_of app1_store ''app1'' = Some app1_vpc \<and> map_of (vpc_subnets app1_vpc) ''web'' = Some web_subnet
   \<and> two_rule_policy ''policy.json'' = Inr [(''ingress'', two_rules)]
   \<and> map_of [(''ingress'', two_rules)] ''ingress'' = Some two_rules
   \<and> fst (apply_firewall always_ok two_rule_policy ''app1'' ''web'' ''policy.json'' (VPCManager app1_store))
       = Succeeded
   \<and> trace (snd (apply_firewall always_ok two_rule_policy ''app1'' ''web'' ''policy.json''
                    (VPCManager app1_store)))
       = map (\<lambda>c. Ran c True True)
           [''ip netns exec app1-web iptables -A INPUT -p tcp --dport 80 -j ACCEPT'',
            ''ip netns exec app1-web iptables -A INPUT -p tcp --dport 22 -j DROP'']
   \<and> disk (snd (apply_firewall always_ok two_rule_policy ''app1'' ''web'' ''policy.json''
                   (VPCManager app1_store))) = app1_store"
proof -
  let ?run = "apply_firewall always_ok two_rule_policy ''app1'' ''web'' ''policy.json'' (VPCManager app1_store)"
  let ?cmds = "[''ip netns exec app1-web iptables -A INPUT -p tcp --dport 80 -j ACCEPT'',
                ''ip netns exec app1-web iptables -A INPUT -p tcp --dport 22 -j DROP'']"
  have p: "map_of app1_store ''app1'' = Some app1_vpc" "map_of (vpc_subnets app1_vpc) ''web'' = Some web_subnet"
      "two_rule_policy ''policy.json'' = Inr [(''ingress'', two_rules)]"
      "map_of [(''ingress'', two_rules)] ''ingress'' = Some two_rules"
    by (simp_all add: app1_store_def app1_vpc_def two_rule_policy_def)
  have r: "?run = (fst ?run, snd ?run)" by simp
  have c: "?cmds = map (\<lambda>r. ''ip netns exec '' @ sn_namespace web_subnet @ '' iptables -A INPUT -p '' @ protocol r
                         @ '' --dport '' @ str_int (port r) @ '' -j ''
                         @ (if upper (action r) = ''ALLOW'' then ''ACCEPT'' else ''DROP'')) two_rules"
    by (simp add: two_rules_def web_subnet_def upper_def str_int_def str_nat.simps)
  have ok: "\<not> (\<exists>k<length two_rules. \<not> always_ok (map (\<lambda>c. Ran c True True) (take k ?cmds)) (?cmds ! k))"
    by (simp add: always_ok_def)
  from apply_firewall_runs_rules_in_order
         [where load_policy = two_rule_policy and policy_file = "''policy.json''", OF p r c] ok
  have "disk (snd ?run) = app1_store \<and> fst ?run = Succeeded \<and> trace (snd ?run) = map (\<lambda>c. Ran c True True) ?cmds"
    by blast
  with p show ?thesis by blast
qed

text \<open>
  C10: for an existing VPC and subnet, a policy document without an \<^verbatim>\<open>ingress\<close> member
  makes ApplyFirewall run no command and report success; the manager is returned as it was.
\<close>

theorem apply_firewall_without_ingress:
  assumes "map_of d vpc_name = Some vpc" and "map_of (vpc_subnets vpc) subnet_name = Some subnet"
    and "load_policy policy_file = Inr policy" and "map_of policy ''ingress'' = None"
  shows "apply_firewall eff load_policy vpc_name subnet_name policy_file (VPCManager d)
           = (Succeeded, VPCManager d)"
  using assms by (simp add: apply_firewall_def VPCManager_simps)

theorem apply_firewall_without_ingress_witness:
  "map_of app1_store ''app1'' = Some app1_vpc \<and> map_of (vpc_subnets app1_vpc) ''web'' = Some web_subnet
   \<and> no_ingress_policy ''policy.json'' = Inr [(''egress'', two_rules)]
   \<and> map_of [(''egress'', two_rules)] ''ingress'' = None
   \<and> apply_firewall always_fail no_ingress_policy ''app1'' ''web'' ''policy.json'' (VPCManager app1_store)
       = (Succeeded, VPCManager app1_store)
   \<and> trace (VPCManager app1_store) = []"
proof -
  have p: "map_of app1_store ''app1'' = Some app1_vpc" "map_of (vpc_subnets app1_vpc) ''web'' = Some web_subnet"
      "no_ingress_policy ''policy.json'' = Inr [(''egress'', two_rules)]"
      "map_of [(''egress'', two_rules)] ''ingress'' = None"
    by (simp_all add: app1_store_def app1_vpc_def no_ingress_policy_def)
  from apply_firewall_without_ingress
         [where load_policy = no_ingress_policy and policy_file = "''policy.json''"
            and eff = always_fail, OF p] p
  show ?thesis
    by (simp add: VPCManager_simps)
qed


section \<open>DeleteVPC\<close>

lemma block_best_effort:
  "\<exists>evs. block (map (\<lambda>c. run_cmd eff c False capture) cs) m = (None, m\<lparr>trace := trace m @ evs\<rparr>)
         \<and> map event_cmd evs = cs \<and> list_all best_effort evs"
proof (induction cs arbitrary: m)
  case Nil
  show ?case by (rule exI [of _ "[]"]) simp
next
  case (Cons c cs)
  define e where "e = Ran c False (eff (trace m) c)"
  define m1 where "m1 = m\<lparr>trace := trace m @ [e]\<rparr>"
  have first: "run_cmd eff c False capture m = (None, m1)"
    by (simp add: run_cmd_eq m1_def e_def)
  from Cons.IH obtain evs where
      evs: "block (map (\<lambda>c. run_cmd eff c False capture) cs) m1 = (None, m1\<lparr>trace := trace m1 @ evs\<rparr>)"
      and cmds: "map event_cmd evs = cs" and be: "list_all best_effort evs"
    by iprover
  have m1: "m1\<lparr>trace := trace m1 @ evs\<rparr> = m\<lparr>trace := trace m @ (e # evs)\<rparr>"
    by (simp add: m1_def)
  have "block (map (\<lambda>c. run_cmd eff c False capture) (c # cs)) m = (None, m\<lparr>trace := trace m @ (e # evs)\<rparr>)"
    by (simp add: first evs m1)
  moreover have "map event_cmd (e # evs) = c # cs"
    by (simp add: cmds e_def)
  moreover have "list_all best_effort (e # evs)"
    by (simp add: be e_def)
  ultimately show ?case by iprover
qed

lemma delete_subnet_stmts:
  "concat (map (\<lambda>(subnet_name, subnet).
            [run_cmd eff (''ip netns del '' @ sn_namespace subnet) False True,
             run_cmd eff (''ip link del '' @ sn_veth_host subnet) False True]) subs)
   = map (\<lambda>c. run_cmd eff c False True)
       (concat (map (\<lambda>(subnet_name, subnet).
               [''ip netns del '' @ sn_namespace subnet, ''ip link del '' @ sn_veth_host subnet]) subs))"
  by (induction subs) auto

lemma delete_nat_stmts:
  "concat (map (\<lambda>(subnet_name, subnet).
            if sn_type subnet = ''public''
            then [run_cmd eff (''iptables -t nat -D POSTROUTING -s '' @ sn_cidr subnet @ '' -o ''
                                @ iface @ '' -j MASQUERADE'') False True]
            else []) subs)
   = map (\<lambda>c. run_cmd eff c False True)
       (map (\<lambda>(subnet_name, subnet).
               ''iptables -t nat -D POSTROUTING -s '' @ sn_cidr subnet @ '' -o '' @ iface @ '' -j MASQUERADE'')
            (filter (\<lambda>(subnet_name, subnet). sn_type subnet = ''public'') subs))"
  by (induction subs) auto

lemma delete_vpc_stmts:
  "concat (map (\<lambda>(subnet_name, subnet).
            [run_cmd eff (''ip netns del '' @ sn_namespace subnet) False True,
             run_cmd eff (''ip link del '' @ sn_veth_host subnet) False True]) (vpc_subnets vpc))
   @ concat (map (\<lambda>(subnet_name, subnet).
            if sn_type subnet = ''public''
            then [run_cmd eff (''iptables -t nat -D POSTROUTING -s '' @ sn_cidr subnet @ '' -o ''
                                @ vpc_internet_interface vpc @ '' -j MASQUERADE'') False True]
            else []) (vpc_subnets vpc))
   @ [run_cmd eff (''iptables -D FORWARD -i '' @ vpc_bridge vpc @ '' -o '' @ vpc_bridge vpc @ '' -j ACCEPT'') False True,
      run_cmd eff (''iptables -D FORWARD -i '' @ vpc_bridge vpc @ '' ! -o '' @ vpc_bridge vpc @ '' -j DROP'') False True,
      run_cmd eff (''ip link del '' @ vpc_bridge vpc) False True]
   = map (\<lambda>c. run_cmd eff c False True) (teardown_cmds vpc)"
  unfolding delete_subnet_stmts delete_nat_stmts teardown_cmds_def by simp

lemma length_teardown_cmds:
  "length (teardown_cmds vpc)
     = 2 * length (vpc_subnets vpc)
       + length (filter (\<lambda>(subnet_name, subnet). sn_type subnet = ''public'') (vpc_subnets vpc)) + 3"
proof -
  have "length (concat (map (\<lambda>(subnet_name, subnet).
               [''ip netns del '' @ sn_namespace subnet, ''ip link del '' @ sn_veth_host subnet]) subs))
        = 2 * length subs" for subs :: "(string \<times> subnet) list"
    by (induction subs) auto
  then show ?thesis by (simp add: teardown_cmds_def)
qed

text \<open>
  C7: for a VPC in the store, DeleteVPC succeeds whatever the commands return: every command
  of the teardown is run, each without \<^verbatim>\<open>check\<close>, and the file is written once, after the
  last of them, without the VPC's record.
\<close>

theorem delete_vpc_always_removes_record:
  assumes "map_of d vpc_name = Some vpc"
  shows "\<exists>evs. delete_vpc eff vpc_name (VPCManager d)
                 = (Succeeded, \<lparr>state = AList.delete vpc_name d, disk = AList.delete vpc_name d,
                                 trace = evs @ [Saved]\<rparr>)
          \<and> map event_cmd evs = teardown_cmds vpc \<and> list_all best_effort evs
          \<and> length evs = 2 * length (vpc_subnets vpc)
               + length (filter (\<lambda>(subnet_name, subnet). sn_type subnet = ''public'') (vpc_subnets vpc)) + 3
          \<and> map_of (AList.delete vpc_name d) vpc_name = None"
proof -
  from block_best_effort [of eff True "teardown_cmds vpc" "VPCManager d"] obtain evs where
      evs: "block (map (\<lambda>c. run_cmd eff c False True) (teardown_cmds vpc)) (VPCManager d)
              = (None, (VPCManager d)\<lparr>trace := trace (VPCManager d) @ evs\<rparr>)"
        "map event_cmd evs = teardown_cmds vpc" "list_all best_effort evs"
    by blast
  from evs(2) have "length evs = length (teardown_cmds vpc)"
    by (metis length_map)
  then have len: "length evs = 2 * length (vpc_subnets vpc)
               + length (filter (\<lambda>(subnet_name, subnet). sn_type subnet = ''public'') (vpc_subnets vpc)) + 3"
    by (simp add: length_teardown_cmds)
  have gone: "map_of (AList.delete vpc_name d) vpc_name = None"
    by (simp add: delete_conv')
  have "delete_vpc eff vpc_name (VPCManager d)
          = (Succeeded, \<lparr>state = AList.delete vpc_name d, disk = AList.delete vpc_name d,
                          trace = evs @ [Saved]\<rparr>)"
    using assms evs(1) unfolding delete_vpc_def delete_vpc_stmts
    by (simp add: VPCManager_def save_state_def)
  with evs(2,3) len gone show ?thesis by blast
qed

theorem delete_vpc_always_removes_record_witness:
  "map_of app1_store ''app1'' = Some app1_vpc
   \<and> fst (delete_vpc always_fail ''app1'' (VPCManager app1_store)) = Succeeded
   \<and> disk (snd (delete_vpc always_fail ''app1'' (VPCManager app1_store))) = []
   \<and> map event_cmd (trace (snd (delete_vpc always_fail ''app1'' (VPCManager app1_store))))
       = teardown_cmds app1_vpc @ [[]]
   \<and> length (teardown_cmds app1_vpc) = 6"
proof -
  have p: "map_of app1_store ''app1'' = Some app1_vpc" by (simp add: app1_store_def)
  have e: "AList.delete ''app1'' app1_store = []" by (simp add: app1_store_def)
  have l: "2 * length (vpc_subnets app1_vpc)
           + length (filter (\<lambda>(subnet_name, subnet). sn_type subnet = ''public'') (vpc_subnets app1_vpc)) + 3 = 6"
    by (simp add: app1_vpc_def web_subnet_def)
  from delete_vpc_always_removes_record [OF p, of always_fail] obtain evs where
      evs: "delete_vpc always_fail ''app1'' (VPCManager app1_store)
              = (Succeeded, \<lparr>state = AList.delete ''app1'' app1_store,
                              disk = AList.delete ''app1'' app1_store, trace = evs @ [Saved]\<rparr>)"
        "map event_cmd evs = teardown_cmds app1_vpc"
        "length evs = 2 * length (vpc_subnets app1_vpc)
           + length (filter (\<lambda>(subnet_name, subnet). sn_type subnet = ''public'') (vpc_subnets app1_vpc)) + 3"
    by blast
  from evs(2,3) l have "length (teardown_cmds app1_vpc) = 6" by (metis length_map)
  with p e evs(1,2) show ?thesis by simp
qed

section \<open>AddSubnet on a name in use\<close>

lemma ip_network_10_0_9_0:
  "ip_network ''10.0.9.0/24'' = Inr \<lparr>network_address = 167774464, prefixlen = 24, version = 4, scope_id = []\<rparr>"
  by (simp add: ip_network_eval)

lemma hosts_10_0_9_0:
  "py_index (hosts \<lparr>network_address = 167774464, prefixlen = 24, version = 4, scope_id = []\<rparr>) 0 = Inr 167774465"
  "py_index (hosts \<lparr>network_address = 167774464, prefixlen = 24, version = 4, scope_id = []\<rparr>) (Suc 0) = Inr 167774466"
  by (simp_all add: hosts_eval del: upt_rec_numeral)

lemma str_host_10_0_9:
  "str_host \<lparr>network_address = 167774464, prefixlen = 24, version = 4, scope_id = []\<rparr> 167774465 = ''10.0.9.1''"
  "str_host \<lparr>network_address = 167774464, prefixlen = 24, version = 4, scope_id = []\<rparr> 167774466 = ''10.0.9.2''"
  by (simp_all add: str_host_eval)

text \<open>
  C2 does not hold of the code: \<^verbatim>\<open>add_subnet\<close> checks that the VPC exists but, unlike
  \<^verbatim>\<open>create_vpc\<close>, not that the name is free. On the store with VPC \<^verbatim>\<open>app1\<close> and subnet
  \<^verbatim>\<open>web\<close> (10.0.1.0/24), adding \<^verbatim>\<open>web\<close> again with 10.0.9.0/24 runs the commands: when
  they succeed the record of \<^verbatim>\<open>web\<close> is overwritten, and when the first one fails the
  operation ends with that command's failure, one command having run.
\<close>

theorem add_subnet_existing_name_not_rejected:
  "map_of app1_store ''app1'' = Some app1_vpc
   \<and> map_of (vpc_subnets app1_vpc) ''web'' = Some web_subnet \<and> sn_cidr web_subnet = ''10.0.1.0/24''
   \<and> fst (add_subnet always_ok ''app1'' ''web'' ''10.0.9.0/24'' ''private'' (VPCManager app1_store))
       = Succeeded
   \<and> length (trace (snd (add_subnet always_ok ''app1'' ''web'' ''10.0.9.0/24'' ''private''
                            (VPCManager app1_store)))) = 11
   \<and> map_option (\<lambda>v. map (\<lambda>(n, s). (n, sn_cidr s, sn_type s, sn_ip s)) (vpc_subnets v))
        (map_of (disk (snd (add_subnet always_ok ''app1'' ''web'' ''10.0.9.0/24'' ''private''
                              (VPCManager app1_store)))) ''app1'')
       = Some [(''web'', ''10.0.9.0/24'', ''private'', ''10.0.9.1'')]
   \<and> add_subnet (fail_on ''ip netns add app1-web'') ''app1'' ''web'' ''10.0.9.0/24'' ''private''
        (VPCManager app1_store)
       = (Raised (CommandFailed ''ip netns add app1-web''),
          \<lparr>state = app1_store, disk = app1_store,
           trace = [Ran ''ip netns add app1-web'' True False]\<rparr>)"
  by (simp add: add_subnet_def run_cmd_eq VPCManager_def always_ok_def fail_on_def save_state_def
      app1_store_def app1_vpc_def web_subnet_def ns_name_def
      ip_network_10_0_9_0 hosts_10_0_9_0 str_host_10_0_9 str_nat_24 Let_def)


end
